theory Spec2Isabelle
  imports Complex_Main "HOL-Library.Word"
begin

section \<open>AVR EEPROM erase over SPI: the module \<open>owfmodules.avrisp.eeprom_erase\<close>\<close>

text \<open>
  The module drives an SPI bus and one GPIO line (the target's reset). Everything outside
  the module is an environment: the adapter's answers to \<open>receive\<close>, the readings of the
  wall clock, whether a transport call raises, and the result of the device-id module.
  The environment is a record of oracles indexed by call number; the module's own state is
  a record of call counters, the level last written to the reset line and the chronological
  list of calls the module has made.

  What the model takes from outside the source file:
  \<^item> \<open>transmit\<close> and \<open>receive\<close> may raise, as the environment says; the GPIO writes,
    \<open>configure\<close>, the logger, \<open>time.sleep\<close> and \<open>time.time\<close> return normally;
  \<^item> \<open>self.connect()\<close> and the device-id module are given by their results; the bus
    traffic of the device-id module is not part of the trace;
  \<^item> of \<open>tqdm\<close>, which draws the progress bar, only the length it takes of the range
    is modelled: \<open>len\<close> raises \<open>OverflowError\<close> for a range longer than \<open>sys.maxsize\<close>,
    taken as \<open>2^63 - 1\<close> (a 64-bit build);
  \<^item> time is a real number of seconds: the rounding of floating-point addition in
    \<open>time.time() + 10\<close> is not modelled;
  \<^item> a function that may not return has an option as result, \<open>None\<close> for "does not
    return"; the Python value \<open>None\<close> is \<open>PyNone\<close>.
\<close>

subsection \<open>Data\<close>

type_synonym byte = "8 word"

text \<open>Python exceptions that occur in the module or come out of the transport.\<close>

datatype exn =
    ValueError | KeyError | StructError | IndexError | OverflowError | TransportError

text \<open>A returned Python value of \<open>process\<close> and \<open>run\<close>: \<open>None\<close>, \<open>True\<close> or \<open>False\<close>.\<close>

datatype pyval = PyNone | PyBool bool

datatype loglevel = INFO | ERROR | SUCCESS

text \<open>
  The messages handed to \<open>self.logger.handle\<close>, one constructor per call site:
  "Enabling Memory Access...", "Erasing the EEPROM memory (Write 0xFF)...",
  "Erasing at byte address '{}' took too long, exiting.." with the address,
  "EEPROM memory successfully erased.", the caught \<open>ValueError\<close> itself, and
  "{}: {}" with the type name and text of any other caught exception.
\<close>

datatype logmsg =
    EnablingMemoryAccess
  | ErasingMemory
  | TookTooLong int
  | SuccessfullyErased
  | CaughtValueError exn
  | CaughtException exn

text \<open>
  One event per call that leaves the module: GPIO writes, SPI calls (a receive with what it
  returned or raised), clock readings, sleeps and log lines.
\<close>

datatype event =
    GpioDirectionOutput
  | GpioStatus int
  | SpiConfigure int
  | SpiTransmit "byte list"
  | SpiReceive nat "exn + byte list"
  | TimeRead real
  | Sleep real
  | Log loglevel logmsg

text \<open>
  The environment. \<open>owf_serial\<close> is the truth value of \<open>self.owf_serial\<close> after
  \<open>self.connect()\<close>; the three options are \<open>self.options[...]["Value"]\<close>; \<open>device_id\<close> is
  what \<open>DeviceID.run(return_value=True)\<close> gives (a dictionary, \<open>None\<close>, or an exception);
  \<open>tx_raises k\<close> is the exception of the \<open>k\<close>-th \<open>transmit\<close> call if it raises; \<open>rx k\<close> is
  the result of the \<open>k\<close>-th \<open>receive\<close> call; \<open>clock k\<close> is the \<open>k\<close>-th reading of
  \<open>time.time()\<close> (seconds, taken as a real number).
\<close>

record env =
  owf_serial :: bool
  spi_bus :: int
  reset_line :: int
  spi_baudrate :: int
  device_id :: "exn + (string \<rightharpoonup> string) option"
  tx_raises :: "nat \<Rightarrow> exn option"
  rx :: "nat \<Rightarrow> exn + byte list"
  clock :: "nat \<Rightarrow> real"

record hw =
  n_tx :: nat
  n_rx :: nat
  n_clock :: nat
  reset_status :: "int option"
  trace :: "event list"

text \<open>The reset line is active-low: \<open>reset.status = 0\<close> asserts it, \<open>1\<close> releases it.\<close>

definition Asserted :: int where
  "Asserted = 0"

definition Deasserted :: int where
  "Deasserted = 1"

subsection \<open>Calls into the environment\<close>

definition emit :: "event \<Rightarrow> hw \<Rightarrow> hw" where
  "emit e s = s\<lparr>trace := trace s @ [e]\<rparr>"

definition spi_transmit :: "env \<Rightarrow> byte list \<Rightarrow> hw \<Rightarrow> (exn + unit) \<times> hw" where
  "spi_transmit E bs s =
     (let s' = emit (SpiTransmit bs) (s\<lparr>n_tx := Suc (n_tx s)\<rparr>)
      in case tx_raises E (n_tx s) of
           Some e \<Rightarrow> (Inl e, s')
         | None \<Rightarrow> (Inr (), s'))"

definition spi_receive :: "env \<Rightarrow> nat \<Rightarrow> hw \<Rightarrow> (exn + byte list) \<times> hw" where
  "spi_receive E n s =
     (rx E (n_rx s), emit (SpiReceive n (rx E (n_rx s))) (s\<lparr>n_rx := Suc (n_rx s)\<rparr>))"

definition time_time :: "env \<Rightarrow> hw \<Rightarrow> real \<times> hw" where
  "time_time E s =
     (clock E (n_clock s), emit (TimeRead (clock E (n_clock s))) (s\<lparr>n_clock := Suc (n_clock s)\<rparr>))"

definition time_sleep :: "real \<Rightarrow> hw \<Rightarrow> hw" where
  "time_sleep d s = emit (Sleep d) s"

definition set_status :: "int \<Rightarrow> hw \<Rightarrow> hw" where
  "set_status v s = emit (GpioStatus v) (s\<lparr>reset_status := Some v\<rparr>)"

definition logger_handle :: "logmsg \<Rightarrow> loglevel \<Rightarrow> hw \<Rightarrow> hw" where
  "logger_handle m l s = emit (Log l m) s"

subsection \<open>\<open>struct.pack(">H", addr)\<close>\<close>

definition be16 :: "int \<Rightarrow> byte list" where
  "be16 a = [word_of_int (a div 256), word_of_int (a mod 256)]"

definition pack_H :: "int \<Rightarrow> exn + byte list" where
  "pack_H a = (if 0 \<le> a \<and> a \<le> 65535 then Inr (be16 a) else Inl StructError)"

subsection \<open>\<open>int(s, 16)\<close>\<close>

text \<open>
  Python's \<open>int(s, 16)\<close> on a string of code points below 256: white space (the code
  points 9 to 13 and 32, and 133 and 160, which are turned into spaces first) is stripped at
  both ends, then an optional sign, an optional \<open>0x\<close> or \<open>0X\<close> (after which one underscore
  may follow), then hexadecimal digits in which single underscores may separate digits.
  Anything else raises \<open>ValueError\<close>.
\<close>

definition py_isspace :: "char \<Rightarrow> bool" where
  "py_isspace c =
     (let n = (of_char c :: nat)
      in (9 \<le> n \<and> n \<le> 13) \<or> n = 32 \<or> n = 133 \<or> n = 160)"

definition hex_value :: "char \<Rightarrow> int option" where
  "hex_value c =
     (let n = (of_char c :: nat)
      in if 48 \<le> n \<and> n \<le> 57 then Some (int n - 48)
         else if 97 \<le> n \<and> n \<le> 102 then Some (int n - 87)
         else if 65 \<le> n \<and> n \<le> 70 then Some (int n - 55)
         else None)"

text \<open>
  The digit scan: \<open>prev_us\<close> says that the previous character was an underscore,
  \<open>acc\<close> is the value so far. Two underscores in a row, a trailing underscore and a
  character that is neither a digit nor an underscore are errors.
\<close>

fun scan_digits :: "bool \<Rightarrow> int \<Rightarrow> string \<Rightarrow> int option" where
  "scan_digits prev_us acc [] = (if prev_us then None else Some acc)"
| "scan_digits prev_us acc (c # cs) =
     (if c = CHR ''_'' then (if prev_us then None else scan_digits True acc cs)
      else case hex_value c of
             None \<Rightarrow> None
           | Some d \<Rightarrow> scan_digits False (16 * acc + d) cs)"

definition strip :: "string \<Rightarrow> string" where
  "strip s = rev (dropWhile py_isspace (rev (dropWhile py_isspace s)))"

definition skip_prefix :: "string \<Rightarrow> string" where
  "skip_prefix s =
     (case s of
        c0 # c1 # rest \<Rightarrow>
          if c0 = CHR ''0'' \<and> (c1 = CHR ''x'' \<or> c1 = CHR ''X'')
          then (case rest of c2 # rest' \<Rightarrow> if c2 = CHR ''_'' then rest' else rest | [] \<Rightarrow> rest)
          else s
      | _ \<Rightarrow> s)"

definition unsigned16 :: "string \<Rightarrow> int option" where
  "unsigned16 s =
     (case skip_prefix s of
        [] \<Rightarrow> None
      | c # cs \<Rightarrow> if c = CHR ''_'' then None else scan_digits False 0 (c # cs))"

definition py_int16 :: "string \<Rightarrow> exn + int" where
  "py_int16 s =
     (let t = strip s;
          neg = (t \<noteq> [] \<and> hd t = CHR ''-'');
          u = (if t \<noteq> [] \<and> (hd t = CHR ''+'' \<or> hd t = CHR ''-'') then tl t else t)
      in case unsigned16 u of
           None \<Rightarrow> Inl ValueError
         | Some v \<Rightarrow> Inr (if neg then - v else v))"

subsection \<open>\<open>wait_poll_eeprom\<close>\<close>

text \<open>
  The \<open>while True\<close> loop. It need not end (a byte that never matches under a clock that
  never passes the deadline), so the result is an option and \<open>None\<close> is "does not return".
  A returned result is the exception raised or the boolean returned, with the state.
\<close>

partial_function (option) wait_poll_loop ::
  "env \<Rightarrow> real \<Rightarrow> int \<Rightarrow> int \<Rightarrow> hw \<Rightarrow> ((exn + bool) \<times> hw) option" where
  "wait_poll_loop E timeout byte byte_addr s =
     (case pack_H byte_addr of
        Inl e \<Rightarrow> Some (Inl e, s)
      | Inr ab \<Rightarrow>
          (case spi_transmit E (0xA0 # ab) s of
             (Inl e, s1) \<Rightarrow> Some (Inl e, s1)
           | (Inr u, s1) \<Rightarrow>
               (case spi_receive E 1 s1 of
                  (Inl e, s2) \<Rightarrow> Some (Inl e, s2)
                | (Inr bs, s2) \<Rightarrow>
                    (case bs of
                       [] \<Rightarrow> Some (Inl IndexError, s2)
                     | read_byte # rest \<Rightarrow>
                         if uint read_byte = byte then Some (Inr True, s2)
                         else (case time_time E s2 of
                                 (now, s3) \<Rightarrow>
                                   if now > timeout then Some (Inr False, s3)
                                   else wait_poll_loop E timeout byte byte_addr s3)))))"

definition wait_poll_eeprom :: "env \<Rightarrow> int \<Rightarrow> int \<Rightarrow> hw \<Rightarrow> ((exn + bool) \<times> hw) option" where
  "wait_poll_eeprom E byte byte_addr s =
     (case time_time E s of
        (now, s1) \<Rightarrow> wait_poll_loop E (now + 10) byte byte_addr s1)"

subsection \<open>\<open>erase\<close>\<close>

definition enable_mem_access_cmd :: "byte list" where
  "enable_mem_access_cmd = [0xAC, 0x53, 0x00, 0x00]"

text \<open>How the \<open>for\<close> loop is left: it ran out of addresses, or it hit \<open>return False\<close>.\<close>

datatype loop_exit = Exhausted | ReturnedFalse

fun erase_loop :: "env \<Rightarrow> int list \<Rightarrow> hw \<Rightarrow> ((exn + loop_exit) \<times> hw) option" where
  "erase_loop E [] s = Some (Inr Exhausted, s)"
| "erase_loop E (addr # addrs) s =
     (case pack_H addr of
        Inl e \<Rightarrow> Some (Inl e, s)
      | Inr ab \<Rightarrow>
          (case spi_transmit E (0xC0 # ab @ [0xFF]) s of
             (Inl e, s1) \<Rightarrow> Some (Inl e, s1)
           | (Inr u, s1) \<Rightarrow>
               (case wait_poll_eeprom E 0xFF addr s1 of
                  None \<Rightarrow> None
                | Some (Inl e, s2) \<Rightarrow> Some (Inl e, s2)
                | Some (Inr ok, s2) \<Rightarrow>
                    if \<not> ok
                    then Some (Inr ReturnedFalse, logger_handle (TookTooLong addr) ERROR s2)
                    else erase_loop E addrs s2)))"

text \<open>
  \<open>tqdm(range(0, n, 1), ...)\<close>: the addresses the loop goes through. \<open>tqdm\<close> takes the
  length of the range when it is built, and \<open>len\<close> raises \<open>OverflowError\<close> when the length
  exceeds \<open>sys.maxsize\<close>.
\<close>

definition maxsize :: int where
  "maxsize = 2 ^ 63 - 1"

definition tqdm_range :: "int \<Rightarrow> exn + int list" where
  "tqdm_range n = (if maxsize < n then Inl OverflowError else Inr [0..n - 1])"

definition erase :: "env \<Rightarrow> (string \<rightharpoonup> string) \<Rightarrow> hw \<Rightarrow> ((exn + bool) \<times> hw) option" where
  "erase E device s =
     (let s1 = set_status 0 s;
          s2 = logger_handle EnablingMemoryAccess INFO s1
      in case spi_transmit E enable_mem_access_cmd s2 of
           (Inl e, s3) \<Rightarrow> Some (Inl e, s3)
         | (Inr u, s3) \<Rightarrow>
             (let s4 = time_sleep (1 / 2) s3;
                  s5 = logger_handle ErasingMemory INFO s4
              in case device ''eeprom_size'' of
                   None \<Rightarrow> Some (Inl KeyError, s5)
                 | Some size_str \<Rightarrow>
                     (case py_int16 size_str of
                        Inl e \<Rightarrow> Some (Inl e, s5)
                      | Inr n \<Rightarrow>
                          (case tqdm_range n of
                             Inl e \<Rightarrow> Some (Inl e, s5)
                           | Inr addrs \<Rightarrow>
                               (case erase_loop E addrs s5 of
                                  None \<Rightarrow> None
                                | Some (Inl e, s6) \<Rightarrow> Some (Inl e, s6)
                                | Some (Inr ReturnedFalse, s6) \<Rightarrow> Some (Inr False, s6)
                                | Some (Inr Exhausted, s6) \<Rightarrow>
                                    Some (Inr True,
                                          logger_handle SuccessfullyErased SUCCESS
                                            (set_status 1 s6)))))))"

subsection \<open>\<open>process\<close> and \<open>run\<close>\<close>

definition get_device_id :: "env \<Rightarrow> exn + (string \<rightharpoonup> string) option" where
  "get_device_id E = device_id E"

definition process :: "env \<Rightarrow> hw \<Rightarrow> ((exn + pyval) \<times> hw) option" where
  "process E s =
     (case get_device_id E of
        Inl e \<Rightarrow> Some (Inl e, s)
      | Inr None \<Rightarrow> Some (Inr PyNone, s)
      | Inr (Some device) \<Rightarrow>
          (let s1 = emit (SpiConfigure (spi_baudrate E)) s;
               s2 = emit GpioDirectionOutput s1;
               s3 = set_status 1 s2
           in case erase E device s3 of
                None \<Rightarrow> None
              | Some (Inl e, s4) \<Rightarrow> Some (Inl e, s4)
              | Some (Inr b, s4) \<Rightarrow> Some (Inr (PyBool b), s4)))"

definition run :: "env \<Rightarrow> bool \<Rightarrow> hw \<Rightarrow> (pyval \<times> hw) option" where
  "run E return_value s =
     (if \<not> owf_serial E then Some (PyNone, s)
      else case process E s of
             None \<Rightarrow> None
           | Some (Inr status, s1) \<Rightarrow> Some (if return_value then status else PyNone, s1)
           | Some (Inl ValueError, s1) \<Rightarrow>
               Some (PyNone, logger_handle (CaughtValueError ValueError) ERROR s1)
           | Some (Inl err, s1) \<Rightarrow>
               Some (PyNone, logger_handle (CaughtException err) ERROR s1))"

subsection \<open>Reading a trace\<close>

fun transmitted :: "event list \<Rightarrow> byte list list" where
  "transmitted [] = []"
| "transmitted (SpiTransmit bs # es) = bs # transmitted es"
| "transmitted (e # es) = transmitted es"

definition is_write_cmd :: "byte list \<Rightarrow> bool" where
  "is_write_cmd bs = (case bs of [] \<Rightarrow> False | c # cs \<Rightarrow> c = 0xC0)"

definition is_read_cmd :: "byte list \<Rightarrow> bool" where
  "is_read_cmd bs = (case bs of [] \<Rightarrow> False | c # cs \<Rightarrow> c = 0xA0)"

definition write_cmds :: "event list \<Rightarrow> byte list list" where
  "write_cmds es = filter is_write_cmd (transmitted es)"

definition read_cmds :: "event list \<Rightarrow> byte list list" where
  "read_cmds es = filter is_read_cmd (transmitted es)"

definition write_frame :: "int \<Rightarrow> byte list" where
  "write_frame a = 0xC0 # be16 a @ [0xFF]"

definition read_frame :: "int \<Rightarrow> byte list" where
  "read_frame a = 0xA0 # be16 a"

subsection \<open>The shape of a poll and of a sweep in the trace\<close>

text \<open>
  \<open>poll_run byte a T ok es\<close>: the events \<open>es\<close> are those of a run of the polling loop for
  address \<open>a\<close> and deadline \<open>T\<close> that returned the boolean \<open>ok\<close>. Each round is a read
  command for \<open>a\<close> and a one-byte receive; a byte equal to \<open>byte\<close> ends the run with \<open>True\<close>;
  otherwise a clock reading follows, which ends the run with \<open>False\<close> when it is beyond \<open>T\<close>.
\<close>

fun poll_run :: "int \<Rightarrow> int \<Rightarrow> real \<Rightarrow> bool \<Rightarrow> event list \<Rightarrow> bool" where
  "poll_run byte a T ok (SpiTransmit f # SpiReceive n (Inr (b # bs)) # es) =
     (f = read_frame a \<and> n = 1 \<and>
      (if uint b = byte then ok \<and> es = []
       else (case es of
               TimeRead t # es' \<Rightarrow>
                 (if t > T then \<not> ok \<and> es' = [] else poll_run byte a T ok es')
             | _ \<Rightarrow> False)))"
| "poll_run byte a T ok es = False"

text \<open>
  \<open>sweep_block a es\<close>: the events of one confirmed address of the sweep: the write command
  for \<open>a\<close>, the clock reading that fixes the deadline ten seconds later, and a poll that
  returned \<open>True\<close> for the fill byte.
\<close>

fun sweep_block :: "int \<Rightarrow> event list \<Rightarrow> bool" where
  "sweep_block a (SpiTransmit f # TimeRead t # p) =
     (f = write_frame a \<and> poll_run 0xFF a (t + 10) True p)"
| "sweep_block a es = False"

text \<open>
  \<open>failed_block a es\<close>: the events of the address at which the sweep gives up: the write
  command, the clock reading, a poll that returned \<open>False\<close>, and the error log line.
\<close>

fun failed_block :: "int \<Rightarrow> event list \<Rightarrow> bool" where
  "failed_block a (SpiTransmit f # TimeRead t # p) =
     (f = write_frame a \<and> p \<noteq> [] \<and> last p = Log ERROR (TookTooLong a) \<and>
      poll_run 0xFF a (t + 10) False (butlast p))"
| "failed_block a es = False"

text \<open>The clock readings recorded in a trace, in order.\<close>

fun readings :: "event list \<Rightarrow> real list" where
  "readings [] = []"
| "readings (TimeRead t # es) = t # readings es"
| "readings (e # es) = readings es"

text \<open>
  The events with which \<open>erase\<close> starts: the reset line driven low, the log line, the
  programming-enable command; then the half-second sleep and the second log line. \<open>begun\<close>
  and \<open>settled\<close> are the states after the former and after both.
\<close>

definition begin_events :: "event list" where
  "begin_events =
     [GpioStatus 0, Log INFO EnablingMemoryAccess, SpiTransmit enable_mem_access_cmd]"

definition settle_events :: "event list" where
  "settle_events = [Sleep (1 / 2), Log INFO ErasingMemory]"

definition begun :: "hw \<Rightarrow> hw" where
  "begun s = s\<lparr>n_tx := Suc (n_tx s), reset_status := Some 0, trace := trace s @ begin_events\<rparr>"

definition settled :: "hw \<Rightarrow> hw" where
  "settled s = (begun s)\<lparr>trace := trace s @ begin_events @ settle_events\<rparr>"

text \<open>
  The state in which \<open>process\<close> calls \<open>erase\<close>: the SPI bus configured, the reset pin an
  output, the reset line driven high.
\<close>

definition prepared :: "env \<Rightarrow> hw \<Rightarrow> hw" where
  "prepared E s = set_status 1 (emit GpioDirectionOutput (emit (SpiConfigure (spi_baudrate E)) s))"

definition init :: hw where
  "init = \<lparr>n_tx = 0, n_rx = 0, n_clock = 0, reset_status = None, trace = []\<rparr>"

subsection \<open>Concrete environments\<close>

text \<open>
  A connected adapter and a device of three EEPROM bytes whose read-back is always the fill
  byte; the clock advances twenty seconds per reading.
\<close>

definition profile3 :: "string \<rightharpoonup> string" where
  "profile3 = [''eeprom_size'' \<mapsto> ''0x0003'']"

definition env_ok :: env where
  "env_ok =
     \<lparr>owf_serial = True, spi_bus = 0, reset_line = 0, spi_baudrate = 1000000,
      device_id = Inr (Some profile3),
      tx_raises = (\<lambda>k. None),
      rx = (\<lambda>k. Inr [0xFF]),
      clock = (\<lambda>k. 20 * real k)\<rparr>"

text \<open>A device of 0x200 bytes on which the first 0x50 read-backs match and no later one.\<close>

definition profile512 :: "string \<rightharpoonup> string" where
  "profile512 = [''eeprom_size'' \<mapsto> ''0x0200'']"

definition env_stuck :: env where
  "env_stuck =
     env_ok\<lparr>device_id := Inr (Some profile512),
            rx := (\<lambda>k. if k < 0x50 then Inr [0xFF] else Inr [0x00])\<rparr>"

text \<open>
  A device whose read-back never is the fill byte, under a clock that advances four seconds
  per reading.
\<close>

definition env_dead :: env where
  "env_dead = env_ok\<lparr>rx := (\<lambda>k. Inr [0x00]), clock := (\<lambda>k. 4 * real k)\<rparr>"

text \<open>An adapter whose second \<open>transmit\<close> (the first write command) raises.\<close>

definition env_tx_fails :: env where
  "env_tx_fails = env_ok\<lparr>tx_raises := (\<lambda>k. if k = 1 then Some TransportError else None)\<rparr>"

text \<open>The device-id module finds no device.\<close>

definition env_no_device :: env where
  "env_no_device = env_ok\<lparr>device_id := Inr None\<rparr>"

text \<open>A device profile of 0x10001 bytes.\<close>

definition profile_oversize :: "string \<rightharpoonup> string" where
  "profile_oversize = [''eeprom_size'' \<mapsto> ''0x10001'']"

definition env_oversize :: env where
  "env_oversize = env_ok\<lparr>device_id := Inr (Some profile_oversize)\<rparr>"

text \<open>A device profile of \<open>2^63\<close> bytes, one more than \<open>sys.maxsize\<close>.\<close>

definition profile_huge :: "string \<rightharpoonup> string" where
  "profile_huge = [''eeprom_size'' \<mapsto> ''0x8000000000000000'']"

text \<open>
  A device whose read-back never is the fill byte, on an adapter whose second \<open>transmit\<close>
  raises.
\<close>

definition env_drops :: env where
  "env_drops = env_dead\<lparr>tx_raises := (\<lambda>k. if k = 1 then Some TransportError else None)\<rparr>"

text \<open>The state in which \<open>erase env_ok profile3\<close> leaves \<open>init\<close>.\<close>

definition erased3 :: hw where
  "erased3 =
     \<lparr>n_tx = 7, n_rx = 3, n_clock = 3, reset_status = Some 1,
      trace =
        [GpioStatus 0, Log INFO EnablingMemoryAccess, SpiTransmit [0xAC, 0x53, 0x00, 0x00],
         Sleep (1 / 2), Log INFO ErasingMemory,
         SpiTransmit [0xC0, 0x00, 0x00, 0xFF], TimeRead 0,
         SpiTransmit [0xA0, 0x00, 0x00], SpiReceive 1 (Inr [0xFF]),
         SpiTransmit [0xC0, 0x00, 0x01, 0xFF], TimeRead 20,
         SpiTransmit [0xA0, 0x00, 0x01], SpiReceive 1 (Inr [0xFF]),
         SpiTransmit [0xC0, 0x00, 0x02, 0xFF], TimeRead 40,
         SpiTransmit [0xA0, 0x00, 0x02], SpiReceive 1 (Inr [0xFF]),
         GpioStatus 1, Log SUCCESS SuccessfullyErased]\<rparr>"

section \<open>Properties\<close>

subsection \<open>Traces and the polling loop\<close>

lemmas prim_defs = spi_transmit_def spi_receive_def time_time_def time_sleep_def set_status_def
  logger_handle_def emit_def

lemmas wait_poll_loop_induct = wait_poll_loop.raw_induct [rotated, consumes 1, case_names step]

lemma transmitted_append: "transmitted (xs @ ys) = transmitted xs @ transmitted ys"
  by (induction xs rule: transmitted.induct) simp_all

lemma write_cmds_append: "write_cmds (xs @ ys) = write_cmds xs @ write_cmds ys"
  by (simp add: write_cmds_def transmitted_append)

lemma read_cmds_append: "read_cmds (xs @ ys) = read_cmds xs @ read_cmds ys"
  by (simp add: read_cmds_def transmitted_append)

lemma write_cmds_concat: "write_cmds (concat bss) = concat (map write_cmds bss)"
  by (induction bss) (simp_all add: write_cmds_def transmitted_append)

lemma read_cmds_concat: "read_cmds (concat bss) = concat (map read_cmds bss)"
  by (induction bss) (simp_all add: read_cmds_def transmitted_append)

lemma frame_kinds:
  "is_write_cmd (write_frame a)" "\<not> is_write_cmd (read_frame a)"
  "is_read_cmd (read_frame a)" "\<not> is_read_cmd (write_frame a)"
  "\<not> is_write_cmd enable_mem_access_cmd" "\<not> is_read_cmd enable_mem_access_cmd"
  by (simp_all add: is_write_cmd_def is_read_cmd_def write_frame_def read_frame_def
      enable_mem_access_cmd_def)

lemma write_frame_bytes:
  "write_frame a = [0xC0, word_of_int (a div 256), word_of_int (a mod 256), 0xFF]"
  by (simp add: write_frame_def be16_def)

lemma poll_run_transmitted:
  "poll_run byte a T ok p \<Longrightarrow>
     transmitted p \<noteq> [] \<and> set (transmitted p) = {read_frame a}"
  by (induction byte a T ok p rule: poll_run.induct)
     (auto split: if_splits list.splits event.splits)

lemma poll_run_cmds:
  assumes "poll_run byte a T ok p"
  shows "write_cmds p = []" and "read_cmds p = transmitted p" and "read_cmds p \<noteq> []"
proof -
  from poll_run_transmitted [OF assms]
  have ne: "transmitted p \<noteq> []" and all: "set (transmitted p) = {read_frame a}" by simp_all
  from all have "\<forall>f \<in> set (transmitted p). is_read_cmd f \<and> \<not> is_write_cmd f"
    by (simp add: frame_kinds)
  then show "write_cmds p = []" and rd: "read_cmds p = transmitted p"
    by (simp_all add: write_cmds_def read_cmds_def filter_empty_conv filter_id_conv)
  from rd ne show "read_cmds p \<noteq> []" by simp
qed

lemma poll_run_last_False:
  "poll_run byte a T False p \<Longrightarrow> \<exists>t. p \<noteq> [] \<and> last p = TimeRead t \<and> T < t"
  by (induction byte a T False p rule: poll_run.induct)
     (auto split: if_splits list.splits event.splits)

lemma poll_run_last_True:
  "poll_run byte a T True p \<Longrightarrow>
     \<exists>b bs. p \<noteq> [] \<and> last p = SpiReceive 1 (Inr (b # bs)) \<and> uint b = byte"
  by (induction byte a T True p rule: poll_run.induct)
     (auto split: if_splits list.splits event.splits)

lemma wait_poll_loop_shape:
  "wait_poll_loop E T byte a s = Some y \<Longrightarrow>
     (\<forall>ok. fst y = Inr ok \<longrightarrow> (\<exists>p. trace (snd y) = trace s @ p \<and> poll_run byte a T ok p))"
proof (induction rule: wait_poll_loop_induct)
  case (step loop E T byte a s y)
  show ?case
    using step.hyps
    by (auto simp: prim_defs pack_H_def read_frame_def Let_def
        split: sum.splits prod.splits list.splits if_splits option.splits dest!: step.IH)
qed

lemma wait_poll_loop_frame:
  "wait_poll_loop E T byte a s = Some y \<Longrightarrow>
     reset_status (snd y) = reset_status s \<and> (\<exists>p. trace (snd y) = trace s @ p) \<and>
     n_tx s \<le> n_tx (snd y) \<and> n_rx s \<le> n_rx (snd y) \<and> n_clock s \<le> n_clock (snd y)"
proof (induction rule: wait_poll_loop_induct)
  case (step loop E T byte a s y)
  show ?case
    using step.hyps
    by (auto simp: prim_defs pack_H_def Let_def
        split: sum.splits prod.splits list.splits if_splits option.splits dest!: step.IH)
qed

lemma wait_poll_eeprom_shape:
  assumes "wait_poll_eeprom E byte a s = Some (Inr ok, s')"
  shows "\<exists>t p. trace s' = trace s @ TimeRead t # p \<and> poll_run byte a (t + 10) ok p"
proof -
  obtain t s1 where tt: "time_time E s = (t, s1)" by (cases "time_time E s")
  with assms have loop: "wait_poll_loop E (t + 10) byte a s1 = Some (Inr ok, s')"
    by (simp add: wait_poll_eeprom_def)
  from tt have tr: "trace s1 = trace s @ [TimeRead t]"
    by (auto simp: time_time_def emit_def)
  from wait_poll_loop_shape [OF loop] obtain p
    where "trace s' = trace s1 @ p" and "poll_run byte a (t + 10) ok p" by auto
  with tr show ?thesis by auto
qed

lemma wait_poll_eeprom_frame:
  assumes "wait_poll_eeprom E byte a s = Some (r, s')"
  shows "reset_status s' = reset_status s \<and> (\<exists>p. trace s' = trace s @ p)"
proof -
  obtain t s1 where tt: "time_time E s = (t, s1)" by (cases "time_time E s")
  with assms have loop: "wait_poll_loop E (t + 10) byte a s1 = Some (r, s')"
    by (simp add: wait_poll_eeprom_def)
  from tt have tr: "trace s1 = trace s @ [TimeRead t]" and rs: "reset_status s1 = reset_status s"
    by (auto simp: time_time_def emit_def)
  from wait_poll_loop_frame [OF loop] obtain p
    where "trace s' = trace s1 @ p" and "reset_status s' = reset_status s1" by auto
  with tr rs show ?thesis by auto
qed

lemma wait_poll_loop_match:
  assumes "0 \<le> a" "a \<le> 65535" "tx_raises E (n_tx s) = None"
    and "rx E (n_rx s) = Inr (b # bs)" "uint b = byte"
  shows "wait_poll_loop E T byte a s =
           Some (Inr True,
                 s\<lparr>n_tx := Suc (n_tx s), n_rx := Suc (n_rx s),
                    trace := trace s @ [SpiTransmit (read_frame a), SpiReceive 1 (Inr (b # bs))]\<rparr>)"
  using assms
  by (subst wait_poll_loop.simps) (simp add: pack_H_def prim_defs read_frame_def Let_def)

lemma wait_poll_loop_miss:
  assumes "0 \<le> a" "a \<le> 65535" "tx_raises E (n_tx s) = None"
    and "rx E (n_rx s) = Inr (b # bs)" "uint b \<noteq> byte"
  shows "wait_poll_loop E T byte a s =
           (let s3 = s\<lparr>n_tx := Suc (n_tx s), n_rx := Suc (n_rx s), n_clock := Suc (n_clock s),
                    trace := trace s @ [SpiTransmit (read_frame a), SpiReceive 1 (Inr (b # bs)),
                                        TimeRead (clock E (n_clock s))]\<rparr>
            in if clock E (n_clock s) > T then Some (Inr False, s3)
               else wait_poll_loop E T byte a s3)"
  using assms
  by (subst wait_poll_loop.simps) (simp add: pack_H_def prim_defs read_frame_def Let_def)

lemma wait_poll_eeprom_match:
  assumes "0 \<le> a" "a \<le> 65535" "tx_raises E (n_tx s) = None"
    and "rx E (n_rx s) = Inr (b # bs)" "uint b = byte"
  shows "wait_poll_eeprom E byte a s =
           Some (Inr True,
                 s\<lparr>n_tx := Suc (n_tx s), n_rx := Suc (n_rx s), n_clock := Suc (n_clock s),
                    trace := trace s @ [TimeRead (clock E (n_clock s)), SpiTransmit (read_frame a),
                                        SpiReceive 1 (Inr (b # bs))]\<rparr>)"
  using assms
  by (simp add: wait_poll_eeprom_def time_time_def emit_def wait_poll_loop_match)

lemma poll_run_readings:
  "poll_run byte a T False p \<Longrightarrow>
     \<exists>rs t. readings p = rs @ [t] \<and> (\<forall>r \<in> set rs. r \<le> T) \<and> T < t"
proof (induction byte a T False p rule: poll_run.induct)
  case (1 byte a T f n b bs es)
  from "1.prems" have ne: "uint b \<noteq> byte" by (auto split: if_splits)
  from "1.prems" ne obtain t es' where es: "es = TimeRead t # es'"
    by (auto split: list.splits event.splits)
  show ?case
  proof (cases "T < t")
    case True
    with "1.prems" ne es have "es' = []" by simp
    with es True show ?thesis by simp
  next
    case False
    with "1.prems" ne es have "poll_run byte a T False es'" by simp
    from "1.hyps" [OF ne es refl False this] obtain rs t' where
      "readings es' = rs @ [t']" "\<forall>r \<in> set rs. r \<le> T" "T < t'" by blast
    with es False show ?thesis
      by (intro exI [of _ "t # rs"] exI [of _ t']) simp
  qed
qed simp_all

lemma wait_poll_loop_timeout:
  assumes "0 \<le> a" "a \<le> 65535"
  shows "\<forall>j \<ge> n_tx s. tx_raises E j = None \<Longrightarrow>
         \<forall>j \<ge> n_rx s. \<exists>b bs. rx E j = Inr (b # bs) \<and> uint b \<noteq> byte \<Longrightarrow>
         n_clock s \<le> k \<Longrightarrow> T < clock E k \<Longrightarrow>
         \<exists>s'. wait_poll_loop E T byte a s = Some (Inr False, s')"
proof (induction "k - n_clock s" arbitrary: s)
  case 0
  then have k: "n_clock s = k" by simp
  from "0.prems"(2) obtain b bs where rx: "rx E (n_rx s) = Inr (b # bs)" "uint b \<noteq> byte"
    by blast
  from "0.prems"(1) have tx: "tx_raises E (n_tx s) = None" by simp
  show ?case
    using "0.prems"(4) k by (simp add: wait_poll_loop_miss [OF assms tx rx] Let_def)
next
  case (Suc d)
  from Suc.prems(2) obtain b bs where rx: "rx E (n_rx s) = Inr (b # bs)" "uint b \<noteq> byte"
    by blast
  from Suc.prems(1) have tx: "tx_raises E (n_tx s) = None" by simp
  let ?s3 = "s\<lparr>n_tx := Suc (n_tx s), n_rx := Suc (n_rx s), n_clock := Suc (n_clock s),
               trace := trace s @ [SpiTransmit (read_frame a), SpiReceive 1 (Inr (b # bs)),
                                   TimeRead (clock E (n_clock s))]\<rparr>"
  show ?case
  proof (cases "T < clock E (n_clock s)")
    case True
    then show ?thesis by (simp add: wait_poll_loop_miss [OF assms tx rx] Let_def)
  next
    case False
    from Suc.hyps(2) have d: "d = k - n_clock ?s3" and le: "n_clock ?s3 \<le> k" by simp_all
    have tx': "\<forall>j \<ge> n_tx ?s3. tx_raises E j = None" using Suc.prems(1) by simp
    have rx': "\<forall>j \<ge> n_rx ?s3. \<exists>b bs. rx E j = Inr (b # bs) \<and> uint b \<noteq> byte"
      using Suc.prems(2) by simp
    from Suc.hyps(1) [OF d tx' rx' le Suc.prems(4)] False show ?thesis
      by (simp add: wait_poll_loop_miss [OF assms tx rx] Let_def)
  qed
qed

subsection \<open>The sweep\<close>

lemma erase_loop_frame:
  "erase_loop E addrs s = Some (r, s') \<Longrightarrow>
     reset_status s' = reset_status s \<and> (\<exists>p. trace s' = trace s @ p)"
proof (induction addrs arbitrary: s)
  case Nil
  then show ?case by simp
next
  case (Cons a addrs)
  show ?case
  proof (cases "pack_H a")
    case (Inl e)
    with Cons.prems show ?thesis by simp
  next
    case (Inr ab)
    obtain u s1 where tx: "spi_transmit E (0xC0 # ab @ [0xFF]) s = (u, s1)"
      by (cases "spi_transmit E (0xC0 # ab @ [0xFF]) s")
    then have s1: "reset_status s1 = reset_status s" "\<exists>p. trace s1 = trace s @ p"
      by (auto simp: spi_transmit_def emit_def Let_def split: option.splits)
    show ?thesis
    proof (cases u)
      case (Inl e)
      with Cons.prems Inr tx s1 show ?thesis by auto
    next
      case u: (Inr x)
      show ?thesis
      proof (cases "wait_poll_eeprom E 0xFF a s1")
        case None
        with Cons.prems Inr tx u show ?thesis by simp
      next
        case (Some y)
        obtain r2 s2 where y: "y = (r2, s2)" by (cases y)
        from Some y have "wait_poll_eeprom E 0xFF a s1 = Some (r2, s2)" by simp
        from wait_poll_eeprom_frame [OF this]
        have s2: "reset_status s2 = reset_status s1" "\<exists>p. trace s2 = trace s1 @ p" by auto
        show ?thesis
        proof (cases r2)
          case (Inl e)
          with Cons.prems Inr tx u Some y s1 s2 show ?thesis by auto
        next
          case ok: (Inr ok)
          show ?thesis
          proof (cases ok)
            case True
            with Cons.prems Inr tx u Some y ok have "erase_loop E addrs s2 = Some (r, s')"
              by simp
            from Cons.IH [OF this] s1 s2 show ?thesis by auto
          next
            case False
            with Cons.prems Inr tx u Some y ok s1 s2 show ?thesis
              by (auto simp: logger_handle_def emit_def)
          qed
        qed
      qed
    qed
  qed
qed


lemma erase_loop_Cons_Inr:
  assumes "erase_loop E (a # addrs) s = Some (Inr x, s')"
  shows "\<exists>s1 s2 ok. 0 \<le> a \<and> a \<le> 65535 \<and>
           spi_transmit E (write_frame a) s = (Inr (), s1) \<and>
           wait_poll_eeprom E 0xFF a s1 = Some (Inr ok, s2) \<and>
           (if ok then erase_loop E addrs s2 = Some (Inr x, s')
            else x = ReturnedFalse \<and> s' = logger_handle (TookTooLong a) ERROR s2)"
  using assms
  by (auto simp: pack_H_def write_frame_def
      split: if_splits sum.splits prod.splits option.splits)

lemma spi_transmit_ok_trace:
  "spi_transmit E f s = (Inr u, s1) \<Longrightarrow>
     trace s1 = trace s @ [SpiTransmit f] \<and> reset_status s1 = reset_status s \<and>
     n_tx s1 = Suc (n_tx s) \<and> n_rx s1 = n_rx s \<and> n_clock s1 = n_clock s \<and>
     tx_raises E (n_tx s) = None"
  by (auto simp: spi_transmit_def emit_def Let_def split: option.splits)

lemma erase_loop_exhausted:
  "erase_loop E addrs s = Some (Inr Exhausted, s') \<Longrightarrow>
     \<exists>blocks. trace s' = trace s @ concat blocks \<and> list_all2 sweep_block addrs blocks \<and>
       (\<forall>a \<in> set addrs. 0 \<le> a \<and> a \<le> 65535)"
proof (induction addrs arbitrary: s)
  case Nil
  then show ?case by simp
next
  case (Cons a addrs)
  from erase_loop_Cons_Inr [OF Cons.prems] obtain s1 s2 ok
    where rng: "0 \<le> a" "a \<le> 65535"
      and tx: "spi_transmit E (write_frame a) s = (Inr (), s1)"
      and poll: "wait_poll_eeprom E 0xFF a s1 = Some (Inr ok, s2)"
      and rest: "if ok then erase_loop E addrs s2 = Some (Inr Exhausted, s')
                 else Exhausted = ReturnedFalse \<and> s' = logger_handle (TookTooLong a) ERROR s2"
    by blast
  from rest have ok and loop: "erase_loop E addrs s2 = Some (Inr Exhausted, s')"
    by (auto split: if_splits)
  from spi_transmit_ok_trace [OF tx] have t1: "trace s1 = trace s @ [SpiTransmit (write_frame a)]"
    by simp
  from wait_poll_eeprom_shape [OF poll] \<open>ok\<close> obtain t p
    where t2: "trace s2 = trace s1 @ TimeRead t # p" and pr: "poll_run 0xFF a (t + 10) True p"
    by auto
  from Cons.IH [OF loop] obtain blocks
    where t3: "trace s' = trace s2 @ concat blocks" and all: "list_all2 sweep_block addrs blocks"
      and rng': "\<forall>a \<in> set addrs. 0 \<le> a \<and> a \<le> 65535"
    by blast
  let ?b = "SpiTransmit (write_frame a) # TimeRead t # p"
  have "sweep_block a ?b" using pr by simp
  with all have "list_all2 sweep_block (a # addrs) (?b # blocks)" by simp
  moreover have "trace s' = trace s @ concat (?b # blocks)" using t1 t2 t3 by simp
  ultimately show ?case using rng rng' by (intro exI [of _ "?b # blocks"]) simp
qed

lemma erase_loop_returned_false:
  "erase_loop E addrs s = Some (Inr ReturnedFalse, s') \<Longrightarrow>
     \<exists>done k rest blocks fb. addrs = done @ k # rest \<and>
       trace s' = trace s @ concat blocks @ fb \<and>
       list_all2 sweep_block done blocks \<and> failed_block k fb"
proof (induction addrs arbitrary: s)
  case Nil
  then show ?case by simp
next
  case (Cons a addrs)
  from erase_loop_Cons_Inr [OF Cons.prems] obtain s1 s2 ok
    where tx: "spi_transmit E (write_frame a) s = (Inr (), s1)"
      and poll: "wait_poll_eeprom E 0xFF a s1 = Some (Inr ok, s2)"
      and rest: "if ok then erase_loop E addrs s2 = Some (Inr ReturnedFalse, s')
                 else ReturnedFalse = ReturnedFalse \<and>
                      s' = logger_handle (TookTooLong a) ERROR s2"
    by blast
  from spi_transmit_ok_trace [OF tx] have t1: "trace s1 = trace s @ [SpiTransmit (write_frame a)]"
    by simp
  from wait_poll_eeprom_shape [OF poll] obtain t p
    where t2: "trace s2 = trace s1 @ TimeRead t # p" and pr: "poll_run 0xFF a (t + 10) ok p"
    by auto
  let ?b = "SpiTransmit (write_frame a) # TimeRead t # p"
  show ?case
  proof (cases ok)
    case True
    with rest have loop: "erase_loop E addrs s2 = Some (Inr ReturnedFalse, s')" by simp
    from Cons.IH [OF loop] obtain dn k rst blocks fb
      where split: "addrs = dn @ k # rst"
        and t3: "trace s' = trace s2 @ concat blocks @ fb"
        and all: "list_all2 sweep_block dn blocks" and fb: "failed_block k fb"
      by blast
    have "sweep_block a ?b" using pr True by simp
    with all have "list_all2 sweep_block (a # dn) (?b # blocks)" by simp
    moreover have "trace s' = trace s @ concat (?b # blocks) @ fb" using t1 t2 t3 by simp
    moreover have "a # addrs = (a # dn) @ k # rst" using split by simp
    ultimately show ?thesis using fb by blast
  next
    case False
    with rest have s': "s' = logger_handle (TookTooLong a) ERROR s2" by simp
    let ?fb = "?b @ [Log ERROR (TookTooLong a)]"
    have "failed_block a ?fb" using pr False by (simp add: butlast_append)
    moreover have "trace s' = trace s @ concat [] @ ?fb"
      using t1 t2 s' by (simp add: logger_handle_def emit_def)
    moreover have "a # addrs = [] @ a # addrs" by simp
    moreover have "list_all2 sweep_block [] []" by simp
    ultimately show ?thesis by blast
  qed
qed

lemma sweep_block_cmds:
  assumes "sweep_block a b"
  shows "write_cmds b = [write_frame a]" and "read_cmds b \<noteq> []"
    and "set (read_cmds b) = {read_frame a}"
proof -
  from assms obtain t p where b: "b = SpiTransmit (write_frame a) # TimeRead t # p"
    and pr: "poll_run 0xFF a (t + 10) True p"
    by (auto elim: sweep_block.elims)
  have w: "write_cmds b = write_cmds [SpiTransmit (write_frame a), TimeRead t] @ write_cmds p"
    and r: "read_cmds b = read_cmds [SpiTransmit (write_frame a), TimeRead t] @ read_cmds p"
    unfolding b write_cmds_append [symmetric] read_cmds_append [symmetric] by simp_all
  from w poll_run_cmds(1) [OF pr] show "write_cmds b = [write_frame a]"
    by (simp add: write_cmds_def frame_kinds)
  from r have r': "read_cmds b = read_cmds p"
    by (simp add: read_cmds_def frame_kinds)
  with poll_run_cmds(3) [OF pr] show "read_cmds b \<noteq> []" by simp
  from r' poll_run_cmds(2) [OF pr] poll_run_transmitted [OF pr]
  show "set (read_cmds b) = {read_frame a}" by simp
qed

lemma failed_block_cmds:
  assumes "failed_block a b"
  shows "write_cmds b = [write_frame a]" and "b \<noteq> []" and "last b = Log ERROR (TookTooLong a)"
proof -
  from assms obtain t p where b: "b = SpiTransmit (write_frame a) # TimeRead t # p"
    and ne: "p \<noteq> []" and lst: "last p = Log ERROR (TookTooLong a)"
    and pr: "poll_run 0xFF a (t + 10) False (butlast p)"
    by (auto elim: failed_block.elims)
  from ne lst have p: "p = butlast p @ [Log ERROR (TookTooLong a)]"
    by (metis append_butlast_last_id)
  have "write_cmds b =
      write_cmds [SpiTransmit (write_frame a), TimeRead t] @ write_cmds (butlast p) @
      write_cmds [Log ERROR (TookTooLong a)]"
    unfolding write_cmds_append [symmetric] using b p by simp
  with poll_run_cmds(1) [OF pr] show "write_cmds b = [write_frame a]"
    by (simp add: write_cmds_def frame_kinds)
  from b show "b \<noteq> []" by simp
  from b ne lst show "last b = Log ERROR (TookTooLong a)" by simp
qed

lemma sweep_blocks_cmds:
  "list_all2 sweep_block addrs blocks \<Longrightarrow>
     write_cmds (concat blocks) = map write_frame addrs \<and>
     length addrs \<le> length (read_cmds (concat blocks))"
proof (induction addrs blocks rule: list_all2_induct)
  case Nil
  then show ?case by (simp add: write_cmds_def read_cmds_def)
next
  case (Cons a addrs b blocks)
  from sweep_block_cmds [OF Cons.hyps(1)]
  have "write_cmds b = [write_frame a]" and "1 \<le> length (read_cmds b)"
    by (simp_all add: Suc_le_eq)
  with Cons.IH show ?case
    by (simp add: write_cmds_append read_cmds_append)
qed

lemma upto_split_eq:
  "xs @ k # ys = [i..j] \<Longrightarrow> xs = [i..k - 1] \<and> ys = [k + 1..j] \<and> i \<le> k \<and> k \<le> j"
proof (induction xs arbitrary: i)
  case Nil
  then have "i \<le> j" by (cases "i \<le> j") auto
  with Nil show ?case by (simp add: upto_rec1)
next
  case (Cons x xs)
  then have ij: "i \<le> j" by (cases "i \<le> j") auto
  with Cons.prems have x: "x = i" and rest: "xs @ k # ys = [i + 1..j]"
    by (simp_all add: upto_rec1)
  from Cons.IH [OF rest] have "xs = [i + 1..k - 1]" "ys = [k + 1..j]" "i + 1 \<le> k" "k \<le> j"
    by simp_all
  with x show ?case by (simp add: upto_rec1 [of i "k - 1"])
qed

lemma erase_loop_append:
  "erase_loop E (xs @ ys) s =
     (case erase_loop E xs s of
        Some (Inr Exhausted, s1) \<Rightarrow> erase_loop E ys s1
      | other \<Rightarrow> other)"
  by (induction xs arbitrary: s)
     (auto split: option.splits sum.splits prod.splits loop_exit.splits)

lemma erase_loop_all_confirm:
  "\<forall>a \<in> set addrs. 0 \<le> a \<and> a \<le> 65535 \<Longrightarrow>
   \<forall>j. tx_raises E j = None \<Longrightarrow>
   \<forall>j < length addrs. \<exists>bs. rx E (n_rx s + j) = Inr (0xFF # bs) \<Longrightarrow>
   \<exists>s'. erase_loop E addrs s = Some (Inr Exhausted, s') \<and>
     n_tx s' = n_tx s + 2 * length addrs \<and> n_rx s' = n_rx s + length addrs \<and>
     n_clock s' = n_clock s + length addrs"
proof (induction addrs arbitrary: s)
  case Nil
  then show ?case by simp
next
  case (Cons a addrs)
  from Cons.prems(1) have rng: "0 \<le> a" "a \<le> 65535" by simp_all
  let ?s1 = "s\<lparr>n_tx := Suc (n_tx s), trace := trace s @ [SpiTransmit (write_frame a)]\<rparr>"
  have tx: "spi_transmit E (write_frame a) s = (Inr (), ?s1)"
    using Cons.prems(2) by (simp add: spi_transmit_def emit_def Let_def)
  have c1: "n_tx ?s1 = Suc (n_tx s)" "n_rx ?s1 = n_rx s" "n_clock ?s1 = n_clock s"
    by simp_all
  from Cons.prems(3) obtain bs where "rx E (n_rx s + 0) = Inr (0xFF # bs)" by blast
  then have rx: "rx E (n_rx ?s1) = Inr (0xFF # bs)" using c1 by simp
  have u: "uint (0xFF :: byte) = 0xFF" by simp
  from Cons.prems(2) have tx1: "tx_raises E (n_tx ?s1) = None" by simp
  let ?s2 = "?s1\<lparr>n_tx := Suc (n_tx ?s1), n_rx := Suc (n_rx ?s1), n_clock := Suc (n_clock ?s1),
               trace := trace ?s1 @ [TimeRead (clock E (n_clock ?s1)), SpiTransmit (read_frame a),
                                     SpiReceive 1 (Inr (0xFF # bs))]\<rparr>"
  have poll: "wait_poll_eeprom E 0xFF a ?s1 = Some (Inr True, ?s2)"
    by (rule wait_poll_eeprom_match [OF rng tx1 rx u])
  have step: "erase_loop E (a # addrs) s = erase_loop E addrs ?s2"
    using rng tx poll by (simp add: pack_H_def write_frame_def)
  have c2: "n_tx ?s2 = n_tx s + 2" "n_rx ?s2 = n_rx s + 1" "n_clock ?s2 = n_clock s + 1"
    using c1 by simp_all
  have rx': "\<forall>j < length addrs. \<exists>bs. rx E (n_rx ?s2 + j) = Inr (0xFF # bs)"
  proof (intro allI impI)
    fix j assume "j < length addrs"
    then have "Suc j < length (a # addrs)" by simp
    with Cons.prems(3) obtain bs' where "rx E (n_rx s + Suc j) = Inr (0xFF # bs')" by blast
    then show "\<exists>bs. rx E (n_rx ?s2 + j) = Inr (0xFF # bs)" using c2 by simp
  qed
  from Cons.prems(1) have rng': "\<forall>a \<in> set addrs. 0 \<le> a \<and> a \<le> 65535" by simp
  from Cons.IH [OF rng' Cons.prems(2) rx'] obtain s' where
    "erase_loop E addrs ?s2 = Some (Inr Exhausted, s')"
    "n_tx s' = n_tx ?s2 + 2 * length addrs" "n_rx s' = n_rx ?s2 + length addrs"
    "n_clock s' = n_clock ?s2 + length addrs" by blast
  with step c2 show ?case by simp
qed

lemma erase_loop_first_write:
  assumes "erase_loop E (a # addrs) s = Some (r, s')" "0 \<le> a" "a \<le> 65535"
  shows "\<exists>p. trace s' = trace s @ SpiTransmit (write_frame a) # p"
proof -
  let ?s1 = "s\<lparr>n_tx := Suc (n_tx s), trace := trace s @ [SpiTransmit (write_frame a)]\<rparr>"
  have tx: "spi_transmit E (write_frame a) s =
      (case tx_raises E (n_tx s) of Some e \<Rightarrow> Inl e | None \<Rightarrow> Inr (), ?s1)"
    by (simp add: spi_transmit_def emit_def Let_def split: option.splits)
  have pk: "pack_H a = Inr (be16 a)" using assms(2,3) by (simp add: pack_H_def)
  show ?thesis
  proof (cases "tx_raises E (n_tx s)")
    case (Some e)
    with assms(1) pk tx [unfolded write_frame_def] show ?thesis
      by (auto simp: write_frame_def)
  next
    case None
    show ?thesis
    proof (cases "wait_poll_eeprom E 0xFF a ?s1")
      case pn: None
      with assms(1) pk tx [unfolded write_frame_def] None show ?thesis
        by (simp add: write_frame_def)
    next
      case (Some y)
      obtain r2 s2 where y: "y = (r2, s2)" by (cases y)
      from Some y have poll: "wait_poll_eeprom E 0xFF a ?s1 = Some (r2, s2)" by simp
      from wait_poll_eeprom_frame [OF poll] obtain p2 where
        t2: "trace s2 = trace s @ SpiTransmit (write_frame a) # p2" by auto
      show ?thesis
      proof (cases r2)
        case (Inl e)
        with assms(1) pk tx [unfolded write_frame_def] None poll t2 show ?thesis
          by (simp add: write_frame_def)
      next
        case (Inr ok)
        show ?thesis
        proof (cases ok)
          case True
          with assms(1) pk tx [unfolded write_frame_def] None poll Inr
          have "erase_loop E addrs s2 = Some (r, s')" by (simp add: write_frame_def)
          from erase_loop_frame [OF this] t2 show ?thesis by auto
        next
          case False
          with assms(1) pk tx [unfolded write_frame_def] None poll Inr t2 show ?thesis
            by (auto simp: write_frame_def logger_handle_def emit_def)
        qed
      qed
    qed
  qed
qed

subsection \<open>\<open>erase\<close> as a whole\<close>

lemma erase_unfold:
  "erase E device s =
     (case tx_raises E (n_tx s) of
        Some e \<Rightarrow> Some (Inl e, begun s)
      | None \<Rightarrow>
          (case device ''eeprom_size'' of
             None \<Rightarrow> Some (Inl KeyError, settled s)
           | Some size_str \<Rightarrow>
               (case py_int16 size_str of
                  Inl e \<Rightarrow> Some (Inl e, settled s)
                | Inr n \<Rightarrow>
                    if maxsize < n then Some (Inl OverflowError, settled s)
                    else
                      (case erase_loop E [0..n - 1] (settled s) of
                         None \<Rightarrow> None
                       | Some (Inl e, s6) \<Rightarrow> Some (Inl e, s6)
                       | Some (Inr ReturnedFalse, s6) \<Rightarrow> Some (Inr False, s6)
                       | Some (Inr Exhausted, s6) \<Rightarrow>
                           Some (Inr True,
                                 logger_handle SuccessfullyErased SUCCESS (set_status 1 s6))))))"
proof -
  have s3: "spi_transmit E enable_mem_access_cmd
              (logger_handle EnablingMemoryAccess INFO (set_status 0 s)) =
            (case tx_raises E (n_tx s) of Some e \<Rightarrow> Inl e | None \<Rightarrow> Inr (), begun s)"
    by (simp add: prim_defs Let_def begun_def begin_events_def split: option.splits)
  have s5: "logger_handle ErasingMemory INFO (time_sleep (1 / 2) (begun s)) = settled s"
    by (simp add: prim_defs begun_def settled_def settle_events_def)
  have tq: "(case tqdm_range n of Inl e \<Rightarrow> f e | Inr addrs \<Rightarrow> g addrs) =
            (if maxsize < n then f OverflowError else g [0..n - 1])" for n f g
    by (simp add: tqdm_range_def)
  show ?thesis
    unfolding erase_def Let_def s3 tq
    by (simp add: s5 split: option.splits cong: sum.case_cong if_cong)
qed

lemma settled_simps:
  "trace (settled s) = trace s @ begin_events @ settle_events"
  "reset_status (settled s) = Some 0"
  "n_tx (settled s) = Suc (n_tx s)" "n_rx (settled s) = n_rx s" "n_clock (settled s) = n_clock s"
  "trace (begun s) = trace s @ begin_events"
  "reset_status (begun s) = Some 0"
  by (simp_all add: settled_def begun_def)

lemma erase_Inr:
  assumes "erase E device s = Some (Inr b, s')"
  shows "\<exists>size_str n s6 x.
           device ''eeprom_size'' = Some size_str \<and> py_int16 size_str = Inr n \<and>
           tx_raises E (n_tx s) = None \<and> n \<le> maxsize \<and>
           erase_loop E [0..n - 1] (settled s) = Some (Inr x, s6) \<and>
           (if b then x = Exhausted \<and>
                      s' = logger_handle SuccessfullyErased SUCCESS (set_status 1 s6)
            else x = ReturnedFalse \<and> s' = s6)"
  using assms unfolding erase_unfold
  by (auto split: option.splits sum.splits prod.splits loop_exit.splits if_splits)

lemma erase_Inl:
  assumes "erase E device s = Some (Inl e, s')"
  shows "reset_status s' = Some 0"
  using assms unfolding erase_unfold
  by (auto simp: settled_simps dest: erase_loop_frame
      split: option.splits sum.splits prod.splits loop_exit.splits if_splits)

lemma erase_prefix:
  assumes "erase E device s = Some (r, s')"
  shows "\<exists>rest. trace s' = trace s @ begin_events @ rest \<and>
           (case tx_raises E (n_tx s) of
              Some e \<Rightarrow> rest = [] \<and> r = Inl e
            | None \<Rightarrow> (\<exists>rest'. rest = settle_events @ rest'))"
  using assms unfolding erase_unfold
  by (auto simp: settled_simps logger_handle_def set_status_def emit_def dest!: erase_loop_frame
      split: option.splits sum.splits prod.splits loop_exit.splits if_splits)

lemma erase_sized:
  assumes "device ''eeprom_size'' = Some size_str" "py_int16 size_str = Inr n"
    and "tx_raises E (n_tx s) = None" "n \<le> maxsize"
  shows "erase E device s =
           (case erase_loop E [0..n - 1] (settled s) of
              None \<Rightarrow> None
            | Some (Inl e, s6) \<Rightarrow> Some (Inl e, s6)
            | Some (Inr ReturnedFalse, s6) \<Rightarrow> Some (Inr False, s6)
            | Some (Inr Exhausted, s6) \<Rightarrow>
                Some (Inr True, logger_handle SuccessfullyErased SUCCESS (set_status 1 s6)))"
  using assms by (simp add: erase_unfold)

lemma erase_loop_past_16_bits:
  assumes "65536 < n"
  shows "erase_loop E [0..n - 1] s =
           (case erase_loop E [0..65535] s of
              Some (Inr Exhausted, s1) \<Rightarrow> Some (Inl StructError, s1)
            | other \<Rightarrow> other)"
proof -
  have "[0..n - 1] = [0..65535] @ [65535 + 1..n - 1]"
    using assms by (intro upto_split2) simp_all
  also have "[65535 + 1..n - 1] = 65536 # [65537..n - 1]"
    using assms by (subst upto_rec1) simp_all
  finally have split: "[0..n - 1] = [0..65535] @ 65536 # [65537..n - 1]" .
  have stop: "erase_loop E (65536 # [65537..n - 1]) s1 = Some (Inl StructError, s1)" for s1
    by (simp add: pack_H_def)
  show ?thesis
    unfolding split erase_loop_append stop by (rule refl)
qed

lemma wait_poll_eeprom_Inr_range:
  assumes "wait_poll_eeprom E byte a s = Some (Inr ok, s')"
  shows "0 \<le> a \<and> a \<le> 65535"
proof (rule ccontr)
  assume "\<not> (0 \<le> a \<and> a \<le> 65535)"
  then have "pack_H a = Inl StructError" by (auto simp: pack_H_def)
  then have "wait_poll_loop E T byte a s1 = Some (Inl StructError, s1)" for T s1
    by (subst wait_poll_loop.simps) simp
  with assms show False by (simp add: wait_poll_eeprom_def split: prod.splits)
qed

lemma wait_poll_eeprom_single_miss:
  assumes "0 \<le> a" "a \<le> 65535"
    and "tx_raises E (n_tx s) = None"
    and "rx E (n_rx s) = Inr (b # bs)" "uint b \<noteq> byte"
    and "clock E (n_clock s) + 10 < clock E (Suc (n_clock s))"
  shows "wait_poll_eeprom E byte a s =
           Some (Inr False,
                 s\<lparr>n_tx := Suc (n_tx s), n_rx := Suc (n_rx s), n_clock := Suc (Suc (n_clock s)),
                    trace := trace s @
                      [TimeRead (clock E (n_clock s)), SpiTransmit (read_frame a),
                       SpiReceive 1 (Inr (b # bs)), TimeRead (clock E (Suc (n_clock s)))]\<rparr>)"
proof -
  let ?s1 = "s\<lparr>n_clock := Suc (n_clock s), trace := trace s @ [TimeRead (clock E (n_clock s))]\<rparr>"
  have tx: "tx_raises E (n_tx ?s1) = None" and rx: "rx E (n_rx ?s1) = Inr (b # bs)"
    using assms(3,4) by simp_all
  have "wait_poll_eeprom E byte a s = wait_poll_loop E (clock E (n_clock s) + 10) byte a ?s1"
    by (simp add: wait_poll_eeprom_def time_time_def emit_def)
  also have "\<dots> = Some (Inr False,
      ?s1\<lparr>n_tx := Suc (n_tx ?s1), n_rx := Suc (n_rx ?s1), n_clock := Suc (n_clock ?s1),
          trace := trace ?s1 @ [SpiTransmit (read_frame a), SpiReceive 1 (Inr (b # bs)),
                                TimeRead (clock E (n_clock ?s1))]\<rparr>)"
    unfolding wait_poll_loop_miss [OF assms(1,2) tx rx assms(5)] Let_def
    using assms(6) by simp
  finally show ?thesis by simp
qed

lemma aborted_sweep_shape:
  assumes "erase E device s = Some (Inr False, s')"
    and "device ''eeprom_size'' = Some size_str" "py_int16 size_str = Inr eeprom_size"
  shows "\<exists>k new blocks fb.
           0 \<le> k \<and> k < eeprom_size \<and>
           trace s' = trace s @ new \<and>
           new = begin_events @ settle_events @ concat blocks @ fb \<and>
           list_all2 sweep_block [0..k - 1] blocks \<and>
           failed_block k fb \<and>
           last new = Log ERROR (TookTooLong k) \<and>
           write_cmds new =
             map (\<lambda>a. [0xC0, word_of_int (a div 256), word_of_int (a mod 256), 0xFF]) [0..k]"
proof -
  from erase_Inr [OF assms(1)] assms(2,3) obtain
    loop: "erase_loop E [0..eeprom_size - 1] (settled s) = Some (Inr ReturnedFalse, s')"
    by auto
  from erase_loop_returned_false [OF loop] obtain dn k rst blocks fb where
    split: "[0..eeprom_size - 1] = dn @ k # rst"
    and tr: "trace s' = trace (settled s) @ concat blocks @ fb"
    and all: "list_all2 sweep_block dn blocks" and fb: "failed_block k fb" by blast
  from upto_split_eq [OF split [symmetric]]
  have dn: "dn = [0..k - 1]" and k: "0 \<le> k" "k \<le> eeprom_size - 1" by simp_all
  let ?new = "begin_events @ settle_events @ concat blocks @ fb"
  have tr': "trace s' = trace s @ ?new" using tr by (simp add: settled_simps)
  from failed_block_cmds [OF fb]
  have fw: "write_cmds fb = [write_frame k]" and fne: "fb \<noteq> []"
    and fl: "last fb = Log ERROR (TookTooLong k)" by simp_all
  from fne fl have last: "last ?new = Log ERROR (TookTooLong k)" by simp
  from sweep_blocks_cmds [OF all] dn
  have w: "write_cmds (concat blocks) = map write_frame [0..k - 1]" by simp
  have pre: "write_cmds (begin_events @ settle_events) = []"
    by (simp add: write_cmds_def begin_events_def settle_events_def frame_kinds)
  have up: "[0..k] = [0..k - 1] @ [k]" using k(1) by (simp add: upto_rec2)
  have "write_cmds ?new = map write_frame [0..k]"
    using pre w fw unfolding up
    by (simp add: write_cmds_append [of "begin_events" "settle_events @ concat blocks @ fb"]
        write_cmds_append [of "settle_events" "concat blocks @ fb"]
        write_cmds_append [of "concat blocks" fb]
        write_cmds_append [of "begin_events" "settle_events"])
  then have wn: "write_cmds ?new =
      map (\<lambda>a. [0xC0, word_of_int (a div 256), word_of_int (a mod 256), 0xFF]) [0..k]"
    by (simp add: write_frame_bytes)
  from k tr' all dn fb last wn show ?thesis
    by (intro exI [of _ k] exI [of _ ?new] exI [of _ blocks] exI [of _ fb]) simp
qed

subsection \<open>\<open>process\<close> and \<open>run\<close>\<close>

lemma prepared_simps:
  "trace (prepared E s) =
     trace s @ [SpiConfigure (spi_baudrate E), GpioDirectionOutput, GpioStatus 1]"
  "reset_status (prepared E s) = Some 1"
  by (simp_all add: prepared_def set_status_def emit_def)

lemma process_unfold:
  "process E s =
     (case get_device_id E of
        Inl e \<Rightarrow> Some (Inl e, s)
      | Inr None \<Rightarrow> Some (Inr PyNone, s)
      | Inr (Some device) \<Rightarrow>
          (case erase E device (prepared E s) of
             None \<Rightarrow> None
           | Some (Inl e, s4) \<Rightarrow> Some (Inl e, s4)
           | Some (Inr b, s4) \<Rightarrow> Some (Inr (PyBool b), s4)))"
  unfolding process_def prepared_def Let_def by (rule refl)

lemma process_Inr:
  assumes "process E s = Some (Inr v, s1)"
  shows "(get_device_id E = Inr None \<and> v = PyNone \<and> s1 = s) \<or>
         (\<exists>device b. get_device_id E = Inr (Some device) \<and> v = PyBool b \<and>
            erase E device (prepared E s) = Some (Inr b, s1))"
  using assms unfolding process_unfold
  by (auto split: sum.splits option.splits prod.splits)

lemma process_frame:
  assumes "process E s = Some (r, s1)"
  shows "\<exists>p. trace s1 = trace s @ p"
  using assms unfolding process_unfold
  by (auto simp: prepared_simps split: sum.splits option.splits prod.splits dest!: erase_prefix)

lemma erase_True_shape:
  assumes "erase E device s = Some (Inr True, s')"
  shows "\<exists>size_str n blocks.
           device ''eeprom_size'' = Some size_str \<and> py_int16 size_str = Inr n \<and>
           list_all2 sweep_block [0..n - 1] blocks \<and>
           trace s' = trace s @ begin_events @ settle_events @ concat blocks @
                      [GpioStatus 1, Log SUCCESS SuccessfullyErased] \<and>
           reset_status s' = Some 1"
proof -
  from erase_Inr [OF assms] obtain size_str n s6 where
    d: "device ''eeprom_size'' = Some size_str" "py_int16 size_str = Inr n"
    and loop: "erase_loop E [0..n - 1] (settled s) = Some (Inr Exhausted, s6)"
    and s': "s' = logger_handle SuccessfullyErased SUCCESS (set_status 1 s6)"
    by auto
  from erase_loop_exhausted [OF loop] obtain blocks where
    "trace s6 = trace (settled s) @ concat blocks"
    "list_all2 sweep_block [0..n - 1] blocks" by blast
  with d s' show ?thesis
    by (auto simp: settled_simps logger_handle_def set_status_def emit_def)
qed

lemma erase_False_shape:
  assumes "erase E device s = Some (Inr False, s')"
  shows "\<exists>k new. trace s' = trace s @ new \<and> new \<noteq> [] \<and> last new = Log ERROR (TookTooLong k)"
proof -
  from erase_Inr [OF assms] obtain n where
    loop: "erase_loop E [0..n - 1] (settled s) = Some (Inr ReturnedFalse, s')"
    by auto
  from erase_loop_returned_false [OF loop] obtain k blocks fb where
    tr: "trace s' = trace (settled s) @ concat blocks @ fb" and fb: "failed_block k fb" by blast
  from failed_block_cmds [OF fb] have "fb \<noteq> []" "last fb = Log ERROR (TookTooLong k)"
    by simp_all
  with tr show ?thesis
    by (intro exI [of _ k] exI [of _ "begin_events @ settle_events @ concat blocks @ fb"])
       (simp add: settled_simps)
qed

lemma run_unfold:
  "run E return_value s =
     (if \<not> owf_serial E then Some (PyNone, s)
      else case process E s of
             None \<Rightarrow> None
           | Some (Inr status, s1) \<Rightarrow> Some (if return_value then status else PyNone, s1)
           | Some (Inl err, s1) \<Rightarrow>
               Some (PyNone,
                     s1\<lparr>trace := trace s1 @
                          [Log ERROR (if err = ValueError then CaughtValueError err
                                      else CaughtException err)]\<rparr>))"
  by (simp add: run_def logger_handle_def emit_def
      split: option.splits sum.splits prod.splits exn.splits)

subsection \<open>Evaluation on concrete inputs\<close>

lemmas eval_defs = run_def process_def get_device_id_def erase_unfold settled_def begun_def
  begin_events_def settle_events_def wait_poll_eeprom_def
  wait_poll_loop.simps spi_transmit_def spi_receive_def time_time_def time_sleep_def set_status_def
  logger_handle_def emit_def pack_H_def be16_def enable_mem_access_cmd_def
  py_int16_def strip_def py_isspace_def unsigned16_def skip_prefix_def hex_value_def Let_def
  maxsize_def init_def env_ok_def env_stuck_def env_dead_def env_tx_fails_def
  env_no_device_def env_oversize_def env_drops_def
  profile3_def profile512_def profile_oversize_def profile_huge_def
  upto_rec1

lemma erase_ok3: "erase env_ok profile3 init = Some (Inr True, erased3)"
  by (simp add: eval_defs erased3_def)

section \<open>The claims\<close>

text \<open>
  C1, as the code has it. A run of \<open>erase\<close> drives the reset line to \<open>Asserted\<close> first.
  When the run returns \<open>True\<close>, its last two events are the line driven back to
  \<open>Deasserted\<close> and the success log line, and the line is \<open>Deasserted\<close> at the end. There
  is no release step for an exception: when one propagates out of \<open>erase\<close>, the line is
  \<open>Asserted\<close> at the end.
\<close>

theorem reset_released_when_sweep_completes:
  assumes "erase E device s = Some (r, s')"
  shows "(\<exists>rest. trace s' = trace s @ GpioStatus Asserted # rest) \<and>
         (r = Inr True \<longrightarrow>
            reset_status s' = Some Deasserted \<and>
            (\<exists>mid. trace s' = trace s @ GpioStatus Asserted # mid @
                      [GpioStatus Deasserted, Log SUCCESS SuccessfullyErased])) \<and>
         (\<forall>e. r = Inl e \<longrightarrow> reset_status s' = Some Asserted)"
proof (intro conjI impI allI)
  from erase_prefix [OF assms]
  show "\<exists>rest. trace s' = trace s @ GpioStatus Asserted # rest"
    by (auto simp: begin_events_def Asserted_def)
next
  assume "r = Inr True"
  with assms have "erase E device s = Some (Inr True, s')" by simp
  from erase_True_shape [OF this]
  show "reset_status s' = Some Deasserted"
    and "\<exists>mid. trace s' = trace s @ GpioStatus Asserted # mid @
           [GpioStatus Deasserted, Log SUCCESS SuccessfullyErased]"
    by (auto simp: begin_events_def Asserted_def Deasserted_def)
next
  fix e assume "r = Inl e"
  with assms have "erase E device s = Some (Inl e, s')" by simp
  from erase_Inl [OF this] show "reset_status s' = Some Asserted" by (simp add: Asserted_def)
qed

theorem reset_released_when_sweep_completes_witness:
  "erase env_ok profile3 init = Some (Inr True, erased3) \<and>
   reset_status erased3 = Some Deasserted \<and>
   (\<exists>mid. trace erased3 =
      GpioStatus Asserted # mid @ [GpioStatus Deasserted, Log SUCCESS SuccessfullyErased])"
  using reset_released_when_sweep_completes [OF erase_ok3] erase_ok3
  by (simp add: init_def)

text \<open>
  The claim as written fails on both other exits. On \<open>env_tx_fails\<close> the first write
  command raises and \<open>erase\<close> ends with the exception and the line \<open>Asserted\<close>; on
  \<open>env_dead\<close> address 0 times out and \<open>erase\<close> returns \<open>False\<close> with the line \<open>Asserted\<close>.
\<close>

theorem reset_left_asserted_counterexample:
  "map_option fst (erase env_tx_fails profile3 init) = Some (Inl TransportError) \<and>
   map_option (reset_status \<circ> snd) (erase env_tx_fails profile3 init) = Some (Some Asserted) \<and>
   map_option fst (erase env_dead profile3 init) = Some (Inr False) \<and>
   map_option (reset_status \<circ> snd) (erase env_dead profile3 init) = Some (Some Asserted)"
  by (simp add: eval_defs Asserted_def)

text \<open>
  C2. Take a profile whose size parses to \<open>eeprom_size\<close> (at most \<open>sys.maxsize\<close>, so that the
  sweep starts) and an address \<open>k\<close> with \<open>0 \<le> k < eeprom_size\<close> at which the poll first
  reports failure: the programming-enable transmit returns, the loop over the addresses
  \<open>0, ..., k - 1\<close> runs through from the state after the session begin (every poll before
  \<open>k\<close> returned \<open>True\<close>), the write command for \<open>k\<close> is transmitted, and the poll for \<open>k\<close>
  returns \<open>False\<close>. Then \<open>erase\<close> returns \<open>False\<close>, in the state of the failed poll plus the
  error log line naming \<open>k\<close>. After the session begin its events are one confirmed block
  for each of the addresses \<open>0, ..., k - 1\<close> in this order, then the block of \<open>k\<close>: the write
  command, the failed poll and the log line, which is the last event of the run. The
  write commands of the run are those of the addresses \<open>0, ..., k\<close>, one each, in ascending
  order, and none for a greater address.
\<close>

theorem poll_failure_at_address_aborts_sweep:
  assumes "device ''eeprom_size'' = Some size_str" "py_int16 size_str = Inr eeprom_size"
    and "eeprom_size \<le> maxsize"
    and "0 \<le> k" "k < eeprom_size"
    and "tx_raises E (n_tx s) = None"
    and "erase_loop E [0..k - 1] (settled s) = Some (Inr Exhausted, s1)"
    and "spi_transmit E (write_frame k) s1 = (Inr (), s2)"
    and "wait_poll_eeprom E 0xFF k s2 = Some (Inr False, s3)"
  shows "\<exists>s' new blocks fb.
           erase E device s = Some (Inr False, s') \<and>
           s' = logger_handle (TookTooLong k) ERROR s3 \<and>
           trace s' = trace s @ new \<and>
           new = begin_events @ settle_events @ concat blocks @ fb \<and>
           list_all2 sweep_block [0..k - 1] blocks \<and>
           failed_block k fb \<and>
           last new = Log ERROR (TookTooLong k) \<and>
           write_cmds new =
             map (\<lambda>a. [0xC0, word_of_int (a div 256), word_of_int (a mod 256), 0xFF]) [0..k]"
proof -
  let ?s' = "logger_handle (TookTooLong k) ERROR s3"
  from wait_poll_eeprom_Inr_range [OF assms(9)] have rng: "0 \<le> k" "k \<le> 65535" by simp_all
  have split: "[0..eeprom_size - 1] = [0..k - 1] @ k # [k + 1..eeprom_size - 1]"
    using assms(4,5) by (intro upto_split3) simp_all
  have step: "erase_loop E (k # [k + 1..eeprom_size - 1]) s1 = Some (Inr ReturnedFalse, ?s')"
    using rng assms(8) [unfolded write_frame_def] assms(9) by (simp add: pack_H_def)
  have loop: "erase_loop E [0..eeprom_size - 1] (settled s) = Some (Inr ReturnedFalse, ?s')"
    unfolding split erase_loop_append assms(7) using step by simp
  have ret: "erase E device s = Some (Inr False, ?s')"
    unfolding erase_sized [where device = device, OF assms(1,2,6,3)] loop by simp
  from erase_loop_exhausted [OF assms(7)] obtain blocks where
    t1: "trace s1 = trace (settled s) @ concat blocks"
    and all: "list_all2 sweep_block [0..k - 1] blocks" by blast
  from spi_transmit_ok_trace [OF assms(8)]
  have t2: "trace s2 = trace s1 @ [SpiTransmit (write_frame k)]" by simp
  from wait_poll_eeprom_shape [OF assms(9)] obtain t p where
    t3: "trace s3 = trace s2 @ TimeRead t # p"
    and pr: "poll_run 0xFF k (t + 10) False p" by blast
  let ?fb = "SpiTransmit (write_frame k) # TimeRead t # p @ [Log ERROR (TookTooLong k)]"
  let ?new = "begin_events @ settle_events @ concat blocks @ ?fb"
  have fb: "failed_block k ?fb" using pr by (simp add: butlast_append)
  have tr: "trace ?s' = trace s @ ?new"
    using t1 t2 t3 by (simp add: logger_handle_def emit_def settled_simps)
  have last: "last ?new = Log ERROR (TookTooLong k)" by simp
  from failed_block_cmds [OF fb] have fw: "write_cmds ?fb = [write_frame k]" by simp
  from sweep_blocks_cmds [OF all]
  have w: "write_cmds (concat blocks) = map write_frame [0..k - 1]" by simp
  have pre: "write_cmds (begin_events @ settle_events) = []"
    by (simp add: write_cmds_def begin_events_def settle_events_def frame_kinds)
  have up: "[0..k] = [0..k - 1] @ [k]" using rng(1) by (simp add: upto_rec2)
  have "write_cmds ?new = map write_frame [0..k]"
    using pre w fw unfolding up
    by (simp add: write_cmds_append [of "begin_events" "settle_events @ concat blocks @ ?fb"]
        write_cmds_append [of "settle_events" "concat blocks @ ?fb"]
        write_cmds_append [of "concat blocks" ?fb]
        write_cmds_append [of "begin_events" "settle_events"])
  then have wn: "write_cmds ?new =
      map (\<lambda>a. [0xC0, word_of_int (a div 256), word_of_int (a mod 256), 0xFF]) [0..k]"
    by (simp add: write_frame_bytes)
  from ret tr all fb last wn show ?thesis
    by (intro exI [of _ ?s'] exI [of _ ?new] exI [of _ blocks] exI [of _ ?fb]) simp
qed

text \<open>
  The device of 0x200 bytes on which address 0x50 never confirms: the addresses
  0x00 to 0x4F are written and confirmed, then the write at 0x50 fails.
\<close>

theorem poll_failure_at_address_aborts_sweep_witness:
  "\<exists>s' blocks fb.
     profile512 ''eeprom_size'' = Some ''0x0200'' \<and> py_int16 ''0x0200'' = Inr 0x200 \<and>
     erase env_stuck profile512 init = Some (Inr False, s') \<and>
     trace s' = begin_events @ settle_events @ concat blocks @ fb \<and>
     list_all2 sweep_block [0..0x4F] blocks \<and> failed_block 0x50 fb \<and>
     last (trace s') = Log ERROR (TookTooLong 0x50) \<and>
     write_cmds (trace s') =
       map (\<lambda>a. [0xC0, word_of_int (a div 256), word_of_int (a mod 256), 0xFF]) [0..0x50]"
proof -
  have d: "profile512 ''eeprom_size'' = Some ''0x0200''" by (simp add: profile512_def)
  have p: "py_int16 ''0x0200'' = Inr 0x200"
    by (simp add: py_int16_def strip_def py_isspace_def unsigned16_def skip_prefix_def
        hex_value_def)
  have mx: "(0x200::int) \<le> maxsize" by (simp add: maxsize_def)
  have tx: "\<forall>j. tx_raises env_stuck j = None" by (simp add: env_stuck_def env_ok_def)
  have tx0: "tx_raises env_stuck (n_tx init) = None" using tx by simp
  have conf: "\<forall>j < length [0..(0x50::int) - 1].
      \<exists>bs. rx env_stuck (n_rx (settled init) + j) = Inr (0xFF # bs)"
    by (simp add: env_stuck_def env_ok_def settled_simps init_def)
  have rng: "\<forall>a \<in> set [0..(0x50::int) - 1]. 0 \<le> a \<and> a \<le> 65535" by simp
  from erase_loop_all_confirm [OF rng tx conf] obtain s1 where
    before: "erase_loop env_stuck [0..0x50 - 1] (settled init) = Some (Inr Exhausted, s1)"
    and c: "n_tx s1 = n_tx (settled init) + 2 * length [0..(0x50::int) - 1]"
      "n_rx s1 = n_rx (settled init) + length [0..(0x50::int) - 1]"
      "n_clock s1 = n_clock (settled init) + length [0..(0x50::int) - 1]" by blast
  from c have cnt: "n_rx s1 = 80" "n_clock s1 = 80"
    by (simp_all add: settled_simps init_def)
  let ?s2 = "s1\<lparr>n_tx := Suc (n_tx s1), trace := trace s1 @ [SpiTransmit (write_frame 0x50)]\<rparr>"
  have wr: "spi_transmit env_stuck (write_frame 0x50) s1 = (Inr (), ?s2)"
    using tx by (simp add: spi_transmit_def emit_def Let_def)
  have miss: "rx env_stuck (n_rx ?s2) = Inr ((0::byte) # [])"
    using cnt by (simp add: env_stuck_def env_ok_def)
  have late: "clock env_stuck (n_clock ?s2) + 10 < clock env_stuck (Suc (n_clock ?s2))"
    using cnt by (simp add: env_stuck_def env_ok_def)
  have ne: "uint (0::byte) \<noteq> 0xFF" by simp
  have tx2: "tx_raises env_stuck (n_tx ?s2) = None" using tx by simp
  note poll = wait_poll_eeprom_single_miss [OF _ _ tx2 miss ne late, of "0x50"]
  from poll_failure_at_address_aborts_sweep
    [where device = profile512 and k = "0x50", OF d p mx _ _ tx0 before wr poll]
  obtain s' new blocks fb where
    "erase env_stuck profile512 init = Some (Inr False, s')"
    "trace s' = trace init @ new"
    "new = begin_events @ settle_events @ concat blocks @ fb"
    "list_all2 sweep_block [0..0x50 - 1] blocks" "failed_block 0x50 fb"
    "last new = Log ERROR (TookTooLong 0x50)"
    "write_cmds new =
      map (\<lambda>a. [0xC0, word_of_int (a div 256), word_of_int (a mod 256), 0xFF]) [0..0x50]"
    by auto
  with d p show ?thesis
    by (intro exI [of _ s'] exI [of _ blocks] exI [of _ fb])
       (simp add: init_def del: upto_rec_numeral)
qed

text \<open>
  C3. A run of \<open>erase\<close> that returns \<open>True\<close> for a profile whose size parses to
  \<open>eeprom_size\<close> consists, after the session begin, of one block per address
  \<open>0, 1, ..., eeprom_size - 1\<close> in this order, each block the write command for the address
  followed by a poll for that address that ended with the fill byte; then the reset line
  is released. Its write commands are exactly \<open>C0\<close>, the big-endian address, \<open>FF\<close> for
  these addresses in ascending order, \<open>eeprom_size\<close> of them, and it sends at least as many
  read commands. (For \<open>eeprom_size \<le> 0\<close> the list of addresses is empty.)
\<close>

theorem successful_sweep_writes_each_address_once:
  assumes "erase E device s = Some (Inr True, s')"
    and "device ''eeprom_size'' = Some size_str" "py_int16 size_str = Inr eeprom_size"
  shows "\<exists>new blocks.
           trace s' = trace s @ new \<and>
           new = begin_events @ settle_events @ concat blocks @
                 [GpioStatus Deasserted, Log SUCCESS SuccessfullyErased] \<and>
           list_all2 sweep_block [0..eeprom_size - 1] blocks \<and>
           write_cmds new =
             map (\<lambda>a. [0xC0, word_of_int (a div 256), word_of_int (a mod 256), 0xFF])
               [0..eeprom_size - 1] \<and>
           length (write_cmds new) = nat eeprom_size \<and>
           nat eeprom_size \<le> length (read_cmds new)"
proof -
  from erase_Inr [OF assms(1)] assms(2,3) obtain s6 where
    loop: "erase_loop E [0..eeprom_size - 1] (settled s) = Some (Inr Exhausted, s6)"
    and s': "s' = logger_handle SuccessfullyErased SUCCESS (set_status 1 s6)"
    by auto
  from erase_loop_exhausted [OF loop] obtain blocks where
    t6: "trace s6 = trace (settled s) @ concat blocks"
    and all: "list_all2 sweep_block [0..eeprom_size - 1] blocks" by blast
  let ?new = "begin_events @ settle_events @ concat blocks @
              [GpioStatus Deasserted, Log SUCCESS SuccessfullyErased]"
  have tr: "trace s' = trace s @ ?new"
    using s' t6 by (simp add: settled_simps logger_handle_def set_status_def emit_def Deasserted_def)
  from sweep_blocks_cmds [OF all]
  have w: "write_cmds (concat blocks) = map write_frame [0..eeprom_size - 1]"
    and r: "length [0..eeprom_size - 1] \<le> length (read_cmds (concat blocks))" by simp_all
  have wn: "write_cmds ?new = write_cmds (concat blocks)"
    by (simp add: write_cmds_append)
       (simp add: write_cmds_def begin_events_def settle_events_def frame_kinds)
  have rn: "read_cmds ?new = read_cmds (concat blocks)"
    by (simp add: read_cmds_append)
       (simp add: read_cmds_def begin_events_def settle_events_def frame_kinds)
  have len: "length [0..eeprom_size - 1] = nat eeprom_size" by simp
  have wf: "map write_frame [0..eeprom_size - 1] =
      map (\<lambda>a. [0xC0, word_of_int (a div 256), word_of_int (a mod 256), 0xFF])
        [0..eeprom_size - 1]"
    by (simp add: write_frame_bytes)
  from tr all w r wn rn len wf show ?thesis
    by (intro exI [of _ ?new] exI [of _ blocks]) simp
qed

theorem successful_sweep_writes_each_address_once_witness:
  "erase env_ok profile3 init = Some (Inr True, erased3) \<and>
   profile3 ''eeprom_size'' = Some ''0x0003'' \<and> py_int16 ''0x0003'' = Inr 3 \<and>
   (\<exists>new. trace erased3 = new \<and>
      write_cmds new = [[0xC0, 0x00, 0x00, 0xFF], [0xC0, 0x00, 0x01, 0xFF], [0xC0, 0x00, 0x02, 0xFF]] \<and>
      length (write_cmds new) = 3 \<and> 3 \<le> length (read_cmds new))"
proof -
  have d: "profile3 ''eeprom_size'' = Some ''0x0003''" by (simp add: profile3_def)
  have p: "py_int16 ''0x0003'' = Inr 3" by (simp add: eval_defs)
  from successful_sweep_writes_each_address_once [OF erase_ok3 d p] erase_ok3 d p
  show ?thesis by (auto simp: init_def upto_rec1)
qed

text \<open>
  C4. When the first read-back of a call to \<open>wait_poll_eeprom\<close> is the expected byte, the
  call returns \<open>True\<close> at once: its only clock reading is the one that fixes the deadline,
  and the deadline is never compared. The same holds in every round of the loop, whatever
  the deadline \<open>T\<close> and the clock are: a matching byte returns \<open>True\<close> with no clock
  reading, so the equality test comes before the expiry test.
\<close>

theorem first_match_returns_without_deadline_check:
  assumes "0 \<le> byte_addr" "byte_addr \<le> 65535"
    and "tx_raises E (n_tx s) = None"
    and "rx E (n_rx s) = Inr (b # bs)" "uint b = byte"
  shows "wait_poll_eeprom E byte byte_addr s =
           Some (Inr True,
                 s\<lparr>n_tx := Suc (n_tx s), n_rx := Suc (n_rx s), n_clock := Suc (n_clock s),
                    trace := trace s @
                      [TimeRead (clock E (n_clock s)),
                       SpiTransmit [0xA0, word_of_int (byte_addr div 256),
                                    word_of_int (byte_addr mod 256)],
                       SpiReceive 1 (Inr (b # bs))]\<rparr>) \<and>
         wait_poll_loop E T byte byte_addr s =
           Some (Inr True,
                 s\<lparr>n_tx := Suc (n_tx s), n_rx := Suc (n_rx s),
                    trace := trace s @
                      [SpiTransmit [0xA0, word_of_int (byte_addr div 256),
                                    word_of_int (byte_addr mod 256)],
                       SpiReceive 1 (Inr (b # bs))]\<rparr>)"
  using wait_poll_eeprom_match [OF assms] wait_poll_loop_match [OF assms]
  by (simp add: read_frame_def be16_def)

theorem first_match_returns_without_deadline_check_witness:
  "wait_poll_eeprom env_ok 0xFF 0x50 init =
     Some (Inr True,
           \<lparr>n_tx = 1, n_rx = 1, n_clock = 1, reset_status = None,
              trace = [TimeRead 0, SpiTransmit [0xA0, 0x00, 0x50], SpiReceive 1 (Inr [0xFF])]\<rparr>) \<and>
   wait_poll_loop env_ok (- 1) 0xFF 0x50 init =
     Some (Inr True,
           \<lparr>n_tx = 1, n_rx = 1, n_clock = 0, reset_status = None,
              trace = [SpiTransmit [0xA0, 0x00, 0x50], SpiReceive 1 (Inr [0xFF])]\<rparr>)"
  using first_match_returns_without_deadline_check
    [of "0x50" env_ok init "0xFF" "[]" "0xFF" "- 1"]
  by (simp add: env_ok_def init_def)

text \<open>
  C5, as the code has it. A call to \<open>wait_poll_eeprom\<close> for a 16-bit address in which
  every \<open>transmit\<close> and every \<open>receive\<close> returns, and whose read-backs never are the
  expected byte, returns \<open>False\<close> once a clock reading lies more than ten seconds after the
  first one: every transmit of the call is the read command \<open>A0\<close> with the big-endian
  address, no write command is sent, every reading before the last is within the deadline
  and the last is beyond it. The reset line is not touched.
\<close>

theorem never_matching_poll_times_out:
  assumes "0 \<le> byte_addr" "byte_addr \<le> 65535"
    and "\<forall>j \<ge> n_tx s. tx_raises E j = None"
    and "\<forall>j \<ge> n_rx s. \<exists>b bs. rx E j = Inr (b # bs) \<and> uint b \<noteq> byte"
    and "n_clock s < k" "clock E (n_clock s) + 10 < clock E k"
  shows "\<exists>s' p rs t.
           wait_poll_eeprom E byte byte_addr s = Some (Inr False, s') \<and>
           trace s' = trace s @ TimeRead (clock E (n_clock s)) # p \<and>
           set (transmitted p) =
             {[0xA0, word_of_int (byte_addr div 256), word_of_int (byte_addr mod 256)]} \<and>
           write_cmds p = [] \<and>
           readings p = rs @ [t] \<and>
           (\<forall>r \<in> set rs. r \<le> clock E (n_clock s) + 10) \<and>
           clock E (n_clock s) + 10 < t \<and>
           reset_status s' = reset_status s"
proof -
  let ?t0 = "clock E (n_clock s)"
  let ?s1 = "s\<lparr>n_clock := Suc (n_clock s), trace := trace s @ [TimeRead ?t0]\<rparr>"
  have unfold: "wait_poll_eeprom E byte byte_addr s = wait_poll_loop E (?t0 + 10) byte byte_addr ?s1"
    by (simp add: wait_poll_eeprom_def time_time_def emit_def)
  have tx: "\<forall>j \<ge> n_tx ?s1. tx_raises E j = None" using assms(3) by simp
  have rx: "\<forall>j \<ge> n_rx ?s1. \<exists>b bs. rx E j = Inr (b # bs) \<and> uint b \<noteq> byte"
    using assms(4) by simp
  have le: "n_clock ?s1 \<le> k" using assms(5) by simp
  from wait_poll_loop_timeout [OF assms(1,2) tx rx le assms(6)] unfold
  obtain s' where ret: "wait_poll_eeprom E byte byte_addr s = Some (Inr False, s')" by auto
  from wait_poll_eeprom_shape [OF ret] obtain t0 p
    where tr: "trace s' = trace s @ TimeRead t0 # p"
      and pr: "poll_run byte byte_addr (t0 + 10) False p" by blast
  from ret unfold wait_poll_loop_frame [of E "?t0 + 10" byte byte_addr ?s1 "(Inr False, s')"]
  obtain q where "trace s' = trace ?s1 @ q" and rs: "reset_status s' = reset_status s"
    by auto
  with tr have t0: "t0 = ?t0" by simp
  from poll_run_readings [OF pr] obtain rs t
    where "readings p = rs @ [t]" "\<forall>r \<in> set rs. r \<le> t0 + 10" "t0 + 10 < t" by blast
  moreover from poll_run_transmitted [OF pr]
  have "set (transmitted p) =
      {[0xA0, word_of_int (byte_addr div 256), word_of_int (byte_addr mod 256)]}"
    by (simp add: read_frame_def be16_def)
  moreover note poll_run_cmds(1) [OF pr] ret tr rs
  ultimately show ?thesis unfolding t0 by blast
qed

theorem never_matching_poll_times_out_witness:
  "\<exists>s' p rs t.
     wait_poll_eeprom env_dead 0xFF 0x50 init = Some (Inr False, s') \<and>
     trace s' = TimeRead 0 # p \<and>
     set (transmitted p) = {[0xA0, 0x00, 0x50]} \<and>
     write_cmds p = [] \<and>
     readings p = rs @ [t] \<and> (\<forall>r \<in> set rs. r \<le> 10) \<and> 10 < t \<and>
     reset_status s' = None"
  using never_matching_poll_times_out
    [where byte_addr = "0x50" and s = init and E = env_dead and byte = "0xFF" and k = 3]
  by (simp add: env_dead_def env_ok_def init_def)

text \<open>
  The claim as written fails where it says that the call never raises: the function has
  no handler. On \<open>env_drops\<close> the first read-back is not the expected byte, the deadline
  has not passed, and the second read command raises: the call ends with that exception.
  For the address 0x10000, \<open>struct.pack\<close> raises before anything is sent.
\<close>

theorem poll_raises_counterexample:
  "wait_poll_eeprom env_drops 0xFF 0x50 init =
     Some (Inl TransportError,
           \<lparr>n_tx = 2, n_rx = 1, n_clock = 2, reset_status = None,
              trace = [TimeRead 0, SpiTransmit [0xA0, 0x00, 0x50], SpiReceive 1 (Inr [0x00]),
                       TimeRead 4, SpiTransmit [0xA0, 0x00, 0x50]]\<rparr>) \<and>
   wait_poll_eeprom env_dead 0xFF 0x10000 init =
     Some (Inl StructError,
           \<lparr>n_tx = 0, n_rx = 0, n_clock = 1, reset_status = None, trace = [TimeRead 0]\<rparr>)"
  by (simp add: eval_defs)

text \<open>
  C6. Every run of \<open>erase\<close> that returns or raises starts with the same events in the same
  order: the reset line is driven to \<open>Asserted\<close>, the log line, the command
  \<open>AC 53 00 00\<close>. When that transmit raises, nothing follows; otherwise the next event is
  the sleep of half a second, and every later event of the run, every write command
  included, comes after it.
\<close>

theorem session_begins_before_any_write:
  assumes "erase E device s = Some (r, s')"
  shows "\<exists>rest.
           trace s' = trace s @
             [GpioStatus Asserted, Log INFO EnablingMemoryAccess,
              SpiTransmit [0xAC, 0x53, 0x00, 0x00]] @ rest \<and>
           (case tx_raises E (n_tx s) of
              Some e \<Rightarrow> rest = [] \<and> r = Inl e
            | None \<Rightarrow> (\<exists>rest'. rest = Sleep (1 / 2) # rest'))"
  using erase_prefix [OF assms]
  by (auto simp: begin_events_def settle_events_def enable_mem_access_cmd_def Asserted_def
      split: option.splits)

theorem session_begins_before_any_write_witness:
  "erase env_ok profile3 init = Some (Inr True, erased3) \<and>
   (\<exists>rest'. trace erased3 =
      [GpioStatus Asserted, Log INFO EnablingMemoryAccess, SpiTransmit [0xAC, 0x53, 0x00, 0x00],
       Sleep (1 / 2)] @ rest')"
proof -
  have ev: "erase env_ok profile3 init = Some (Inr True, erased3)"
    by (simp add: eval_defs erased3_def)
  from session_begins_before_any_write [OF ev] ev show ?thesis
    by (auto simp: env_ok_def init_def)
qed

text \<open>
  C7, as the code has it. When the device-id module returns \<open>None\<close>, \<open>process\<close> returns
  \<open>None\<close> and so does \<open>run\<close>, whatever \<open>return_value\<close> is, and the state is the one they
  started from: no SPI command is sent, the reset line is not written, and nothing is
  logged.
\<close>

theorem no_device_nothing_done:
  assumes "get_device_id E = Inr None"
  shows "process E s = Some (Inr PyNone, s) \<and> run E return_value s = Some (PyNone, s)"
  using assms by (simp add: process_def run_def)

theorem no_device_nothing_done_witness:
  "get_device_id env_no_device = Inr None \<and>
   process env_no_device init = Some (Inr PyNone, init) \<and>
   run env_no_device True init = Some (PyNone, init)"
proof -
  have h: "get_device_id env_no_device = Inr None"
    by (simp add: get_device_id_def env_no_device_def env_ok_def)
  from no_device_nothing_done [OF h, of init True] h show ?thesis by simp
qed

text \<open>
  The claim as written fails where it says that the run reports that nothing was erased:
  nothing is logged, and the value \<open>None\<close> is no such report. Called as the framework
  calls it, without \<open>return_value\<close>, a run with no device returns \<open>None\<close> and leaves no
  event, and a run that erased three bytes returns the same \<open>None\<close>.
\<close>

theorem no_device_not_reported_counterexample:
  "run env_no_device False init = Some (PyNone, init) \<and>
   trace init = [] \<and>
   map_option fst (run env_ok False init) = Some PyNone \<and>
   map_option (write_cmds \<circ> trace \<circ> snd) (run env_ok False init) =
     Some [[0xC0, 0x00, 0x00, 0xFF], [0xC0, 0x00, 0x01, 0xFF], [0xC0, 0x00, 0x02, 0xFF]]"
  by (simp add: eval_defs write_cmds_def is_write_cmd_def)

text \<open>
  C8, as the code has it. A failing run of \<open>run\<close> on a connected adapter hands its caller
  a bare value and a log line, not a structured failure. With no device, the result is
  \<open>None\<close> and the module does nothing at all. An exception raised inside \<open>process\<close>, a
  transport failure included, is caught: one \<open>ERROR\<close> log line carrying the exception is
  appended to the state in which it was raised, and the result is \<open>None\<close>. When \<open>process\<close>
  returns \<open>False\<close>, the result is \<open>False\<close> if \<open>return_value\<close> is set and \<open>None\<close> otherwise,
  and the run ends with the \<open>ERROR\<close> log line naming the address that timed out. In each
  case nothing is done after the failure: no retry.
\<close>

theorem failures_are_logged_and_not_retried:
  assumes "owf_serial E" "run E return_value s = Some (v, s')"
  shows "(get_device_id E = Inr None \<longrightarrow> v = PyNone \<and> s' = s) \<and>
         (\<forall>e s1. process E s = Some (Inl e, s1) \<longrightarrow>
            v = PyNone \<and> n_tx s' = n_tx s1 \<and> n_rx s' = n_rx s1 \<and>
            reset_status s' = reset_status s1 \<and>
            trace s' = trace s1 @
              [Log ERROR (if e = ValueError then CaughtValueError e else CaughtException e)]) \<and>
         (\<forall>s1. process E s = Some (Inr (PyBool False), s1) \<longrightarrow>
            v = (if return_value then PyBool False else PyNone) \<and> s' = s1 \<and>
            (\<exists>k new. trace s' = trace s @ new \<and> new \<noteq> [] \<and>
               last new = Log ERROR (TookTooLong k)))"
proof (intro conjI impI allI)
  assume "get_device_id E = Inr None"
  with assms show "v = PyNone" and "s' = s" by (simp_all add: run_def process_def)
next
  fix e s1 assume "process E s = Some (Inl e, s1)"
  with assms show "v = PyNone" and "n_tx s' = n_tx s1" and "n_rx s' = n_rx s1"
    and "reset_status s' = reset_status s1"
    and "trace s' = trace s1 @
      [Log ERROR (if e = ValueError then CaughtValueError e else CaughtException e)]"
    by (auto simp: run_unfold)
next
  fix s1 assume p: "process E s = Some (Inr (PyBool False), s1)"
  with assms show "v = (if return_value then PyBool False else PyNone)" and s': "s' = s1"
    by (auto simp: run_unfold)
  from process_Inr [OF p] obtain device where
    "erase E device (prepared E s) = Some (Inr False, s1)" by auto
  from erase_False_shape [OF this] obtain k new where
    "trace s1 = trace (prepared E s) @ new" "new \<noteq> []" "last new = Log ERROR (TookTooLong k)"
    by blast
  with s' show "\<exists>k new. trace s' = trace s @ new \<and> new \<noteq> [] \<and>
      last new = Log ERROR (TookTooLong k)"
    by (intro exI [of _ k]
        exI [of _ "[SpiConfigure (spi_baudrate E), GpioDirectionOutput, GpioStatus 1] @ new"])
       (simp add: prepared_simps)
qed

theorem failures_are_logged_and_not_retried_witness:
  "\<exists>s1 s'. owf_serial env_tx_fails \<and>
     process env_tx_fails init = Some (Inl TransportError, s1) \<and>
     run env_tx_fails True init = Some (PyNone, s') \<and>
     trace s' = trace s1 @ [Log ERROR (CaughtException TransportError)]"
proof -
  have c: "owf_serial env_tx_fails" by (simp add: env_tx_fails_def env_ok_def)
  obtain s1 where p: "process env_tx_fails init = Some (Inl TransportError, s1)"
    by (simp add: eval_defs)
  obtain v s' where r: "run env_tx_fails True init = Some (v, s')"
    by (simp add: eval_defs)
  from failures_are_logged_and_not_retried [OF c r] p
  have "v = PyNone" "trace s' = trace s1 @ [Log ERROR (CaughtException TransportError)]"
    by auto
  with c p r show ?thesis by blast
qed

text \<open>
  The claim as written fails: with \<open>return_value\<close> set, a run with no device and a run
  whose transport raises both return the bare \<open>None\<close> (the former without a single
  event), a run that times out returns the bare \<open>False\<close>; without \<open>return_value\<close> a run
  that times out returns \<open>None\<close> as a successful run does.
\<close>

theorem failures_not_structured_counterexample:
  "map_option fst (run env_no_device True init) = Some PyNone \<and>
   map_option (trace \<circ> snd) (run env_no_device True init) = Some [] \<and>
   map_option fst (run env_tx_fails True init) = Some PyNone \<and>
   map_option fst (run env_dead True init) = Some (PyBool False) \<and>
   map_option fst (run env_dead False init) = Some PyNone \<and>
   map_option fst (run env_ok False init) = Some PyNone"
  by (simp add: eval_defs)

text \<open>
  C9, as the code has it. For a profile whose size parses to more than 0x10000, a run of
  \<open>erase\<close> never returns \<open>True\<close>. When the size is at most \<open>sys.maxsize\<close>, nothing checks it
  before the sweep: when the programming-enable transmit does not raise, the write command
  for address 0 follows the session begin in every run that returns or raises; and when
  the sweep over the addresses 0 to 65535 runs to its end, the run raises \<open>struct.error\<close>
  at address 65536, after exactly the write commands for 0 to 65535, with the reset line
  still \<open>Asserted\<close>. That case occurs: on a transport that does not raise and a device
  whose read-back always is the fill byte, the sweep over 0 to 65535 does run to its end.
  When the size is beyond \<open>sys.maxsize\<close>, the length taken by the progress bar raises
  \<open>OverflowError\<close> right after the session begin, before any write command.
\<close>

theorem oversize_profile_never_succeeds:
  assumes "device ''eeprom_size'' = Some size_str" "py_int16 size_str = Inr eeprom_size"
    and "0x10000 < eeprom_size"
  shows "(\<forall>s'. erase E device s \<noteq> Some (Inr True, s')) \<and>
         (\<forall>r s'. eeprom_size \<le> maxsize \<longrightarrow> tx_raises E (n_tx s) = None \<longrightarrow>
            erase E device s = Some (r, s') \<longrightarrow>
            (\<exists>rest. trace s' = trace s @ begin_events @ settle_events @
                       SpiTransmit [0xC0, 0x00, 0x00, 0xFF] # rest)) \<and>
         (\<forall>s1. eeprom_size \<le> maxsize \<longrightarrow> tx_raises E (n_tx s) = None \<longrightarrow>
            erase_loop E [0..65535] (settled s) = Some (Inr Exhausted, s1) \<longrightarrow>
            erase E device s = Some (Inl StructError, s1) \<and>
            reset_status s1 = Some Asserted \<and>
            (\<exists>new. trace s1 = trace s @ new \<and>
               write_cmds new =
                 map (\<lambda>a. [0xC0, word_of_int (a div 256), word_of_int (a mod 256), 0xFF])
                   [0..65535])) \<and>
         ((\<forall>j. tx_raises E j = None) \<longrightarrow> (\<forall>j. \<exists>bs. rx E j = Inr (0xFF # bs)) \<longrightarrow>
            (\<exists>s1. erase_loop E [0..65535] (settled s) = Some (Inr Exhausted, s1))) \<and>
         (maxsize < eeprom_size \<longrightarrow> tx_raises E (n_tx s) = None \<longrightarrow>
            erase E device s = Some (Inl OverflowError, settled s) \<and>
            trace (settled s) = trace s @ begin_events @ settle_events \<and>
            write_cmds (begin_events @ settle_events) = [])"
proof -
  have never: "erase E device s \<noteq> Some (Inr True, s')" for s'
  proof
    assume "erase E device s = Some (Inr True, s')"
    from erase_Inr [OF this] assms(1,2) obtain s6 where
      "erase_loop E [0..eeprom_size - 1] (settled s) = Some (Inr Exhausted, s6)" by auto
    from erase_loop_exhausted [OF this] have "\<forall>a \<in> set [0..eeprom_size - 1]. a \<le> 65535"
      by blast
    moreover have "65536 \<in> set [0..eeprom_size - 1]" using assms(3) by simp
    ultimately show False by fastforce
  qed
  have starts: "\<exists>rest. trace s' = trace s @ begin_events @ settle_events @
      SpiTransmit [0xC0, 0x00, 0x00, 0xFF] # rest"
    if mx: "eeprom_size \<le> maxsize" and tx: "tx_raises E (n_tx s) = None"
      and ret: "erase E device s = Some (r, s')" for r s'
  proof -
  have first: "[0..eeprom_size - 1] = 0 # [1..eeprom_size - 1]"
    using assms(3) by (subst upto_rec1) simp_all
  from ret obtain x where
    loop: "erase_loop E (0 # [1..eeprom_size - 1]) (settled s) = Some (x, s') \<or>
           (\<exists>s6. erase_loop E (0 # [1..eeprom_size - 1]) (settled s) = Some (x, s6) \<and>
              s' = logger_handle SuccessfullyErased SUCCESS (set_status 1 s6))"
    unfolding erase_sized [where device = device, OF assms(1,2) tx mx] first
    by (auto split: option.splits sum.splits prod.splits loop_exit.splits)
  then show ?thesis
  proof
    assume "erase_loop E (0 # [1..eeprom_size - 1]) (settled s) = Some (x, s')"
    from erase_loop_first_write [OF this] show ?thesis
      by (auto simp: settled_simps write_frame_bytes)
  next
    assume "\<exists>s6. erase_loop E (0 # [1..eeprom_size - 1]) (settled s) = Some (x, s6) \<and>
      s' = logger_handle SuccessfullyErased SUCCESS (set_status 1 s6)"
    then obtain s6 where l6: "erase_loop E (0 # [1..eeprom_size - 1]) (settled s) = Some (x, s6)"
      and s': "s' = logger_handle SuccessfullyErased SUCCESS (set_status 1 s6)" by blast
    from erase_loop_first_write [OF l6] s' show ?thesis
      by (auto simp: settled_simps write_frame_bytes logger_handle_def set_status_def emit_def)
  qed
  qed
  have big: "65536 < eeprom_size" using assms(3) by simp
  have raises: "erase E device s = Some (Inl StructError, s1) \<and>
        reset_status s1 = Some Asserted \<and>
        (\<exists>new. trace s1 = trace s @ new \<and>
           write_cmds new =
             map (\<lambda>a. [0xC0, word_of_int (a div 256), word_of_int (a mod 256), 0xFF])
               [0..65535])"
    if mx: "eeprom_size \<le> maxsize" and tx: "tx_raises E (n_tx s) = None"
      and sweep: "erase_loop E [0..65535] (settled s) = Some (Inr Exhausted, s1)" for s1
  proof (intro conjI)
    show ret: "erase E device s = Some (Inl StructError, s1)"
      unfolding erase_sized [where device = device, OF assms(1,2) tx mx]
        erase_loop_past_16_bits [OF big] sweep by simp
    from erase_Inl [OF ret] show "reset_status s1 = Some Asserted" by (simp add: Asserted_def)
    from erase_loop_exhausted [OF sweep] obtain blocks where
      t: "trace s1 = trace (settled s) @ concat blocks"
      and all: "list_all2 sweep_block [0..65535] blocks" by blast
    let ?new = "begin_events @ settle_events @ concat blocks"
    have "write_cmds (begin_events @ settle_events) = []"
      by (simp add: write_cmds_def begin_events_def settle_events_def frame_kinds)
    with sweep_blocks_cmds [OF all]
    have "write_cmds ?new = map write_frame [0..65535]"
      by (simp add: write_cmds_append [of "begin_events" "settle_events @ concat blocks"]
          write_cmds_append [of "settle_events" "concat blocks"]
          write_cmds_append [of "begin_events" "settle_events"] del: upto_rec_numeral)
    then have "write_cmds ?new =
        map (\<lambda>a. [0xC0, word_of_int (a div 256), word_of_int (a mod 256), 0xFF]) [0..65535]"
      by (simp add: write_frame_bytes del: upto_rec_numeral)
    moreover have "trace s1 = trace s @ ?new" using t by (simp add: settled_simps)
    ultimately show "\<exists>new. trace s1 = trace s @ new \<and>
           write_cmds new =
             map (\<lambda>a. [0xC0, word_of_int (a div 256), word_of_int (a mod 256), 0xFF])
               [0..65535]" by blast
  qed
  have reached: "\<exists>s1. erase_loop E [0..65535] (settled s) = Some (Inr Exhausted, s1)"
    if tx: "\<forall>j. tx_raises E j = None" and rx: "\<forall>j. \<exists>bs. rx E j = Inr (0xFF # bs)"
  proof -
  have rng: "\<forall>a \<in> set [0..(65535::int)]. 0 \<le> a \<and> a \<le> 65535"
    by (simp del: upto_rec_numeral)
  have conf: "\<forall>j < length [0..(65535::int)]. \<exists>bs. rx E (n_rx (settled s) + j) = Inr (0xFF # bs)"
    using rx by blast
  from erase_loop_all_confirm [OF rng tx conf] show ?thesis by blast
  qed
  have overflow: "erase E device s = Some (Inl OverflowError, settled s) \<and>
      trace (settled s) = trace s @ begin_events @ settle_events \<and>
      write_cmds (begin_events @ settle_events) = []"
    if "maxsize < eeprom_size" "tx_raises E (n_tx s) = None"
    using that assms(1,2)
    by (simp add: erase_unfold settled_simps write_cmds_def begin_events_def settle_events_def
        frame_kinds)
  from never starts raises reached overflow show ?thesis by blast
qed


theorem oversize_profile_never_succeeds_witness:
  "profile_oversize ''eeprom_size'' = Some ''0x10001'' \<and> py_int16 ''0x10001'' = Inr 0x10001 \<and>
   (\<exists>s1 new.
      erase env_oversize profile_oversize init = Some (Inl StructError, s1) \<and>
      reset_status s1 = Some Asserted \<and>
      trace s1 = new \<and>
      write_cmds new =
        map (\<lambda>a. [0xC0, word_of_int (a div 256), word_of_int (a mod 256), 0xFF]) [0..65535])"
proof -
  have d: "profile_oversize ''eeprom_size'' = Some ''0x10001''"
    by (simp add: profile_oversize_def)
  have p: "py_int16 ''0x10001'' = Inr 0x10001"
    by (simp add: py_int16_def strip_def py_isspace_def unsigned16_def skip_prefix_def
        hex_value_def)
  have big: "(0x10000::int) < 0x10001" by simp
  have mx: "(0x10001::int) \<le> maxsize" by (simp add: maxsize_def)
  have tx: "\<forall>j. tx_raises env_oversize j = None"
    by (simp add: env_oversize_def env_ok_def)
  have rx: "\<forall>j. \<exists>bs. rx env_oversize j = Inr (0xFF # bs)"
    by (simp add: env_oversize_def env_ok_def)
  note inst = oversize_profile_never_succeeds
    [where device = profile_oversize and E = env_oversize and s = init, OF d p big]
  from inst tx rx obtain s1 where
    "erase_loop env_oversize [0..65535] (settled init) = Some (Inr Exhausted, s1)" by blast
  with inst tx mx have "erase env_oversize profile_oversize init = Some (Inl StructError, s1) \<and>
      reset_status s1 = Some Asserted \<and>
      (\<exists>new. trace s1 = trace init @ new \<and>
         write_cmds new =
           map (\<lambda>a. [0xC0, word_of_int (a div 256), word_of_int (a mod 256), 0xFF])
             [0..65535])" by blast
  with d p show ?thesis by (auto simp: init_def simp del: upto_rec_numeral)
qed

text \<open>
  The claim as written fails for a size beyond \<open>sys.maxsize\<close>: for the size
  0x8000000000000000 the run raises \<open>OverflowError\<close> and no write command is sent, so
  address 65536 is never reached.
\<close>

theorem oversize_beyond_maxsize_counterexample:
  "py_int16 ''0x8000000000000000'' = Inr (2 ^ 63) \<and>
   map_option fst (erase env_ok profile_huge init) = Some (Inl OverflowError) \<and>
   map_option (write_cmds \<circ> trace \<circ> snd) (erase env_ok profile_huge init) = Some []"
  by (simp add: eval_defs write_cmds_def is_write_cmd_def)

text \<open>
  C10. With \<open>return_value = True\<close>, a run of \<open>run\<close> that returns gives one of three
  different values. It is \<open>None\<close> exactly when the adapter is not connected, or the
  device-id module returned \<open>None\<close>, or an exception was caught. It is \<open>False\<close> exactly when
  the run ended with the error log line of an address that timed out. It is \<open>True\<close> only
  when, for the profile's size \<open>n\<close>, the events of the sweep are one block per address
  \<open>0, ..., n - 1\<close>, each the write command followed by a poll that ended with the fill
  byte, that is, when every address was confirmed.
\<close>

theorem run_returns_three_distinct_values:
  assumes "run E True s = Some (v, s')"
  shows "(v = PyNone \<longleftrightarrow>
            (\<not> owf_serial E \<or> get_device_id E = Inr None \<or>
             (\<exists>e s1. process E s = Some (Inl e, s1)))) \<and>
         (v = PyBool False \<longleftrightarrow>
            (\<exists>k new. trace s' = trace s @ new \<and> new \<noteq> [] \<and>
               last new = Log ERROR (TookTooLong k))) \<and>
         (v = PyBool True \<longrightarrow>
            (\<exists>device size_str n blocks.
               get_device_id E = Inr (Some device) \<and>
               device ''eeprom_size'' = Some size_str \<and> py_int16 size_str = Inr n \<and>
               list_all2 sweep_block [0..n - 1] blocks \<and>
               trace s' = trace s @
                 [SpiConfigure (spi_baudrate E), GpioDirectionOutput, GpioStatus Deasserted] @
                 begin_events @ settle_events @ concat blocks @
                 [GpioStatus Deasserted, Log SUCCESS SuccessfullyErased])) \<and>
         PyNone \<noteq> PyBool False \<and> PyNone \<noteq> PyBool True \<and> PyBool False \<noteq> PyBool True"
proof (cases "owf_serial E")
  case False
  with assms have "v = PyNone" "s' = s" by (simp_all add: run_unfold)
  with False show ?thesis by simp
next
  case True
  with assms obtain r s1 where p: "process E s = Some (r, s1)"
    by (auto simp: run_unfold split: option.splits)
  from process_frame [OF p] obtain q where q: "trace s1 = trace s @ q" by blast
  show ?thesis
  proof (cases r)
    case (Inl e)
    with assms True p q have "v = PyNone"
      and "trace s' = trace s @ q @
        [Log ERROR (if e = ValueError then CaughtValueError e else CaughtException e)]"
      by (auto simp: run_unfold)
    moreover from p Inl have "get_device_id E \<noteq> Inr None"
      by (auto simp: process_unfold)
    ultimately show ?thesis using p Inl by auto
  next
    case (Inr status)
    with assms True p have v: "v = status" and s': "s' = s1" by (simp_all add: run_unfold)
    from p Inr have noexc: "\<not> (\<exists>e s1. process E s = Some (Inl e, s1))" by simp
    from process_Inr [OF p [unfolded Inr]]
    consider (nodev) "get_device_id E = Inr None" "status = PyNone" "s1 = s"
      | (dev) device b where "get_device_id E = Inr (Some device)" "status = PyBool b"
          "erase E device (prepared E s) = Some (Inr b, s1)"
      by blast
    then show ?thesis
    proof cases
      case nodev
      with v s' show ?thesis by simp
    next
      case dev
      show ?thesis
      proof (cases b)
        case b: True
        from dev(3) b have "erase E device (prepared E s) = Some (Inr True, s1)" by simp
        from erase_True_shape [OF this] obtain size_str n blocks where
          "device ''eeprom_size'' = Some size_str" "py_int16 size_str = Inr n"
          "list_all2 sweep_block [0..n - 1] blocks"
          and tr: "trace s1 = trace (prepared E s) @ begin_events @ settle_events @
            concat blocks @ [GpioStatus 1, Log SUCCESS SuccessfullyErased]"
          by blast
        moreover from tr have "trace s' = trace s @
            ([SpiConfigure (spi_baudrate E), GpioDirectionOutput, GpioStatus 1] @
             begin_events @ settle_events @ concat blocks @ [GpioStatus 1]) @
            [Log SUCCESS SuccessfullyErased]"
          using s' by (simp add: prepared_simps)
        ultimately show ?thesis using v dev(1,2) b True noexc tr s'
          by (auto simp: prepared_simps Deasserted_def)
      next
        case b: False
        from dev(3) b have "erase E device (prepared E s) = Some (Inr False, s1)" by simp
        from erase_False_shape [OF this] obtain k new where
          "trace s1 = trace (prepared E s) @ new" "new \<noteq> []"
          "last new = Log ERROR (TookTooLong k)" by blast
        then have "trace s' = trace s @
            [SpiConfigure (spi_baudrate E), GpioDirectionOutput, GpioStatus 1] @ new \<and>
            [SpiConfigure (spi_baudrate E), GpioDirectionOutput, GpioStatus 1] @ new \<noteq> [] \<and>
            last ([SpiConfigure (spi_baudrate E), GpioDirectionOutput, GpioStatus 1] @ new) =
              Log ERROR (TookTooLong k)"
          using s' by (simp add: prepared_simps)
        then have "\<exists>k new. trace s' = trace s @ new \<and> new \<noteq> [] \<and>
            last new = Log ERROR (TookTooLong k)" by blast
        with v dev(1,2) b True noexc show ?thesis by simp
      qed
    qed
  qed
qed


theorem run_returns_three_distinct_values_witness:
  "(\<exists>s' device size_str n blocks.
      run env_ok True init = Some (PyBool True, s') \<and>
      get_device_id env_ok = Inr (Some device) \<and>
      device ''eeprom_size'' = Some size_str \<and> py_int16 size_str = Inr n \<and>
      list_all2 sweep_block [0..n - 1] blocks \<and>
      trace s' =
        [SpiConfigure 1000000, GpioDirectionOutput, GpioStatus Deasserted] @
        begin_events @ settle_events @ concat blocks @
        [GpioStatus Deasserted, Log SUCCESS SuccessfullyErased]) \<and>
   (\<exists>s' k new.
      run env_dead True init = Some (PyBool False, s') \<and>
      trace s' = new \<and> new \<noteq> [] \<and> last new = Log ERROR (TookTooLong k)) \<and>
   (\<exists>s'. run env_no_device True init = Some (PyNone, s') \<and>
      get_device_id env_no_device = Inr None)"
proof (intro conjI)
  obtain s' where r: "run env_ok True init = Some (PyBool True, s')"
    by (simp add: eval_defs)
  from run_returns_three_distinct_values [OF r] r
  show "\<exists>s' device size_str n blocks.
      run env_ok True init = Some (PyBool True, s') \<and>
      get_device_id env_ok = Inr (Some device) \<and>
      device ''eeprom_size'' = Some size_str \<and> py_int16 size_str = Inr n \<and>
      list_all2 sweep_block [0..n - 1] blocks \<and>
      trace s' =
        [SpiConfigure 1000000, GpioDirectionOutput, GpioStatus Deasserted] @
        begin_events @ settle_events @ concat blocks @
        [GpioStatus Deasserted, Log SUCCESS SuccessfullyErased]"
    by (auto simp: init_def env_ok_def get_device_id_def)
next
  obtain s' where r: "run env_dead True init = Some (PyBool False, s')"
    by (simp add: eval_defs)
  from run_returns_three_distinct_values [OF r] r
  show "\<exists>s' k new. run env_dead True init = Some (PyBool False, s') \<and>
      trace s' = new \<and> new \<noteq> [] \<and> last new = Log ERROR (TookTooLong k)"
    by (auto simp: init_def)
next
  obtain s' where r: "run env_no_device True init = Some (PyNone, s')"
    by (simp add: eval_defs)
  from run_returns_three_distinct_values [OF r] r
  show "\<exists>s'. run env_no_device True init = Some (PyNone, s') \<and>
      get_device_id env_no_device = Inr None"
    by (auto simp: env_no_device_def env_ok_def get_device_id_def)
qed

end
